theory Spec2Isabelle
  imports Main "HOL-Library.Word" "HOL-Library.Monad_Syntax"
begin

section \<open>Bytes, C strings and the two global buffers\<close>

text \<open>
  The program is a C chat client and server (\<^verbatim>\<open>main.c\<close>). A C \<^verbatim>\<open>char\<close> is a
  \<^typ>\<open>char\<close> (one byte); an array of \<^verbatim>\<open>char\<close> is a list of them whose length is the
  size of the array. A read or write outside the array is undefined behaviour in C: every
  function below that can do it returns an \<^typ>\<open>'a option\<close>, and \<^term>\<open>None\<close> stands
  for undefined behaviour.
\<close>

definition NUL :: char where "NUL = CHR 0x00"
definition NL :: char where "NL = CHR 0x0A"
definition CR :: char where "CR = CHR 0x0D"

text \<open>\<^verbatim>\<open>size_t\<close>: an unsigned 64-bit integer, so that \<^verbatim>\<open>strlen(..) - 1\<close> wraps.\<close>

type_synonym size_t = "64 word"

text \<open>\<^verbatim>\<open>buf[i]\<close> as a read and as a write, for an index of type \<^verbatim>\<open>size_t\<close>.\<close>

definition buf_get :: "string \<Rightarrow> size_t \<Rightarrow> char option" where
  "buf_get buf i = (if unat i < length buf then Some (buf ! unat i) else None)"

definition buf_set :: "string \<Rightarrow> size_t \<Rightarrow> char \<Rightarrow> string option" where
  "buf_set buf i c = (if unat i < length buf then Some (buf[unat i := c]) else None)"

text \<open>
  \<^verbatim>\<open>strlen\<close>: the number of bytes before the first NUL. Without a NUL in the array the
  scan leaves the array.
\<close>

fun strlen :: "string \<Rightarrow> nat option" where
  "strlen [] = None"
| "strlen (c # cs) = (if c = NUL then Some 0 else map_option Suc (strlen cs))"

text \<open>The C string held by an array: what \<^verbatim>\<open>%s\<close> prints and what \<^verbatim>\<open>send\<close> is given.\<close>

definition cstring :: "string \<Rightarrow> string option" where
  "cstring buf = map_option (\<lambda>n. take n buf) (strlen buf)"

text \<open>\<^verbatim>\<open>memset(buf, c, n)\<close>.\<close>

definition memset :: "string \<Rightarrow> char \<Rightarrow> nat \<Rightarrow> string option" where
  "memset buf c n = (if n \<le> length buf then Some (replicate n c @ drop n buf) else None)"

text \<open>
  Standard input is the list of bytes that the keyboard still delivers; the empty list
  is end of file. \<^verbatim>\<open>fgets(buf, size, stdin)\<close> takes bytes up to and including the
  first newline, at most \<^verbatim>\<open>size - 1\<close> of them, and stores them with a terminating NUL.
  When it reads nothing it returns \<^verbatim>\<open>NULL\<close> and leaves the array as it was (the program
  never looks at the return value).
\<close>

fun read_line :: "nat \<Rightarrow> string \<Rightarrow> string \<times> string" where
  "read_line 0 inp = ([], inp)"
| "read_line (Suc n) [] = ([], [])"
| "read_line (Suc n) (c # inp) =
     (if c = NL then ([c], inp)
      else (case read_line n inp of (l, rest) \<Rightarrow> (c # l, rest)))"

definition fgets :: "string \<Rightarrow> nat \<Rightarrow> string \<Rightarrow> string \<times> string" where
  "fgets buf n inp =
     (case read_line (n - 1) inp of
        (l, rest) \<Rightarrow>
          if l = [] then (buf, rest)
          else (l @ [NUL] @ drop (length l + 1) buf, rest))"

section \<open>The global state\<close>

datatype mode = CLIENT | SERVER | UNSET

text \<open>
  The program is compiled either for Windows (\<^verbatim>\<open>_WIN32\<close> defined) or for a POSIX
  system; the \<^verbatim>\<open>#ifdef\<close>s of the source are branches on this value.
\<close>

datatype platform = WIN32 | POSIX

text \<open>Every \<^verbatim>\<open>printf\<close> of the program, with the arguments of its format.\<close>

datatype message =
    AskRole                \<comment> \<open>\<^verbatim>\<open>Press 1 to run chat server or 2 to run chat client ...\<close>\<close>
  | SelectedServer         \<comment> \<open>\<^verbatim>\<open>You have selected to run the chat server\<close>\<close>
  | SelectedClient         \<comment> \<open>\<^verbatim>\<open>You have selected to run the chat client.\<close>\<close>
  | AcceptedConnection     \<comment> \<open>\<^verbatim>\<open>Accepted Connection!!\<close>\<close>
  | ConnectionSuccess      \<comment> \<open>\<^verbatim>\<open>Connection Success!!\<close>\<close>
  | ConnectionFailed       \<comment> \<open>\<^verbatim>\<open>Connection failed! :(\<close> and \<^verbatim>\<open>Connection failed!! :(\<close>\<close>
  | ErrorCode int          \<comment> \<open>\<^verbatim>\<open>Error code: %d\<close>\<close>
  | EnteredPort int        \<comment> \<open>\<^verbatim>\<open>You have entered port no: %d\<close>\<close>
  | EnteredIP string       \<comment> \<open>\<^verbatim>\<open>You have entered IP Address: %s\<close>\<close>
  | InvalidRole            \<comment> \<open>\<^verbatim>\<open>You have provided invalid input... try again!\<close>\<close>
  | PressEnterToExit       \<comment> \<open>\<^verbatim>\<open>Press Enter to exit.\<close>\<close>
  | UnableToCreateSocket   \<comment> \<open>\<^verbatim>\<open>ERROR: UNABLE TO CREATE SOCKET\<close>\<close>
  | ErrorDuringConnect     \<comment> \<open>\<^verbatim>\<open>ERROR: SOCKET ERROR DURING CONNECT!\<close>\<close>
  | Listening int          \<comment> \<open>\<^verbatim>\<open>Socket listening on port %d.  Waiting on connection ...\<close>\<close>
  | Connected              \<comment> \<open>\<^verbatim>\<open>Connected.  Type your message and press enter ...\<close>\<close>
  | ErrorCreatingThread    \<comment> \<open>\<^verbatim>\<open>Error creating thread\<close>\<close>
  | OtherPartyDisconnected \<comment> \<open>\<^verbatim>\<open>Other party disconnected!\<close>\<close>
  | SocketErrorCode int    \<comment> \<open>\<^verbatim>\<open>Socket Error! Code: %d\<close>\<close>
  | OtherPartyQuit         \<comment> \<open>\<^verbatim>\<open>Other party quit!\<close>\<close>
  | TheySaid string        \<comment> \<open>\<^verbatim>\<open>They said: %s\<close>\<close>
  | AskPortClient          \<comment> \<open>\<^verbatim>\<open>Type the port number (1-65535) you want to connect to ...\<close>\<close>
  | AskPortServer          \<comment> \<open>\<^verbatim>\<open>Type the port number (1-65535) you want your server to listen on ...\<close>\<close>
  | InvalidPort            \<comment> \<open>\<^verbatim>\<open>Invalid Input.  try again.\<close>\<close>
  | AskIP                  \<comment> \<open>\<^verbatim>\<open>What's the IP address you'd like to connect to?\<close>\<close>
  | InvalidIP              \<comment> \<open>\<^verbatim>\<open>Invalid Input IP address.  Try again.\<close>\<close>

text \<open>
  What the program does to the outside, in program order: console output, the calls on
  the socket, the calls that start and join the input thread. \<^term>\<open>SetExit\<close> records
  the assignment \<^verbatim>\<open>bPerformExit = true\<close>, the moment the session becomes terminating.
\<close>

datatype event =
    Print message
  | Send string        \<comment> \<open>\<^verbatim>\<open>send\<close> with the bytes handed to it\<close>
  | Select             \<comment> \<open>\<^verbatim>\<open>select\<close>, the poll\<close>
  | Recv               \<comment> \<open>\<^verbatim>\<open>recv\<close>\<close>
  | Close int          \<comment> \<open>\<^verbatim>\<open>close\<close> or \<^verbatim>\<open>closesocket\<close>\<close>
  | ThreadCreate       \<comment> \<open>\<^verbatim>\<open>pthread_create\<close>\<close>
  | ThreadJoin         \<comment> \<open>\<^verbatim>\<open>pthread_join\<close>\<close>
  | SetExit
  | WSAStartup | WSACleanup
  | Socket | Connect int string | Bind int | Listen | Accept

text \<open>
  The global variables of the program, the standard input, the trace of events, and
  whether an input thread is running (created and still inside its blocking read).
\<close>

record globals =
  bHasMessageWaiting :: bool
  bPerformExit :: bool
  ReceiveBuffer :: string
  InputBuffer :: string
  ServerSocket :: int
  ConnectionMode :: mode
  stdin :: string
  trace :: "event list"
  thread_reading :: bool

definition emit :: "event list \<Rightarrow> globals \<Rightarrow> globals" where
  "emit evs s = s\<lparr>trace := trace s @ evs\<rparr>"

section \<open>The input thread\<close>

text \<open>
  \<^verbatim>\<open>WaitForUserInput\<close>: one blocking \<^verbatim>\<open>fgets\<close> into \<^verbatim>\<open>InputBuffer\<close>, then the two
  trimming steps, each reading the byte at \<^verbatim>\<open>strlen(InputBuffer) - 1\<close> computed in
  \<^verbatim>\<open>size_t\<close>, then the flag.
\<close>

definition trim_last :: "char \<Rightarrow> string \<Rightarrow> string option" where
  "trim_last c buf =
     do {
       n \<leftarrow> strlen buf;
       let LastChar = (word_of_nat n :: size_t) - 1;
       x \<leftarrow> buf_get buf LastChar;
       if x = c then buf_set buf LastChar NUL else Some buf
     }"

definition WaitForUserInput :: "globals \<Rightarrow> globals option" where
  "WaitForUserInput s =
     (case fgets (InputBuffer s) 300 (stdin s) of
        (buf, rest) \<Rightarrow>
          do {
            buf1 \<leftarrow> trim_last NL buf;
            buf2 \<leftarrow> trim_last CR buf1;
            Some (s\<lparr>InputBuffer := buf2, stdin := rest, bHasMessageWaiting := True,
                    thread_reading := False\<rparr>)
          })"

text \<open>The globals when \<^verbatim>\<open>main\<close> has zeroed both buffers, reading from \<open>inp\<close>.\<close>

definition initial :: "string \<Rightarrow> globals" where
  "initial inp =
     \<lparr>bHasMessageWaiting = False, bPerformExit = False,
      ReceiveBuffer = replicate 300 NUL, InputBuffer = replicate 300 NUL,
      ServerSocket = 0, ConnectionMode = UNSET, stdin = inp, trace = [],
      thread_reading = False\<rparr>"

section \<open>The chat loop\<close>

text \<open>
  What the outside world answers during one iteration of the loop of \<^verbatim>\<open>Chat\<close>:
  whether the input thread has finished its read before the loop tests the flag, and the
  results of the calls the iteration may make.
\<close>

datatype recv_result =
    RecvError          \<comment> \<open>\<^verbatim>\<open>recv\<close> returns \<^verbatim>\<open>SOCKET_ERROR\<close>\<close>
  | RecvData string    \<comment> \<open>the bytes that arrived; none of them: the peer has closed\<close>

record tick =
  input_done :: bool
  send_ret :: int              \<comment> \<open>return value of \<^verbatim>\<open>send\<close>\<close>
  create_ret :: int            \<comment> \<open>return value of \<^verbatim>\<open>pthread_create\<close>\<close>
  select_ret :: int            \<comment> \<open>return value of \<^verbatim>\<open>select\<close>\<close>
  recv_res :: recv_result
  last_error :: int            \<comment> \<open>what \<^verbatim>\<open>WSAGetLastError\<close> returns\<close>

definition SOCKET_ERROR :: int where "SOCKET_ERROR = - 1"

text \<open>From \<^verbatim>\<open>winsock2.h\<close>.\<close>

definition WSAECONNRESET :: int where "WSAECONNRESET = 10054"

text \<open>
  The error report that follows a failed \<^verbatim>\<open>send\<close>, \<^verbatim>\<open>select\<close> or \<^verbatim>\<open>recv\<close>. It
  stands between \<^verbatim>\<open>#ifdef _WIN32\<close> and \<^verbatim>\<open>#endif\<close>.
\<close>

definition report_error :: "platform \<Rightarrow> tick \<Rightarrow> event list" where
  "report_error p t =
     (case p of
        WIN32 \<Rightarrow>
          (let SocketError = last_error t in
           if SocketError = WSAECONNRESET then [Print OtherPartyDisconnected]
           else [Print (SocketErrorCode SocketError)])
      | POSIX \<Rightarrow> [])"

definition set_exit :: "globals \<Rightarrow> globals" where
  "set_exit s = emit [SetExit] (s\<lparr>bPerformExit := True\<rparr>)"

text \<open>\<^verbatim>\<open>pthread_create(&InputThread, NULL, WaitForUserInput, ..)\<close> and its error message.\<close>

definition create_thread :: "int \<Rightarrow> globals \<Rightarrow> globals" where
  "create_thread ret s =
     (if ret \<noteq> 0 then emit [ThreadCreate, Print ErrorCreatingThread] s
      else emit [ThreadCreate] (s\<lparr>thread_reading := True\<rparr>))"

text \<open>
  The input thread runs beside the loop. Between \<^verbatim>\<open>pthread_create\<close> and the test of
  the flag the loop touches neither \<^verbatim>\<open>InputBuffer\<close> nor the flag, so the whole thread is
  run here at once, in the iteration before whose test it finishes. The last section runs
  the two threads step by step and shows that the loop uses \<^verbatim>\<open>InputBuffer\<close> only when
  the thread has been joined.
\<close>

definition input_thread :: "tick \<Rightarrow> globals \<Rightarrow> globals option" where
  "input_thread t s =
     (if thread_reading s \<and> input_done t then WaitForUserInput s else Some s)"

text \<open>The first half of the loop body: \<^verbatim>\<open>if (bHasMessageWaiting) { ... }\<close>.\<close>

definition input_ready :: "platform \<Rightarrow> tick \<Rightarrow> globals \<Rightarrow> globals option" where
  "input_ready p t s =
     (if bHasMessageWaiting s then
        do {
          let s = emit [ThreadJoin] s;
          msg \<leftarrow> cstring (InputBuffer s);
          let s = emit [Send msg] s;
          let s = (if send_ret t = SOCKET_ERROR
                   then set_exit (emit (report_error p t) s) else s);
          let s = s\<lparr>bHasMessageWaiting := False\<rparr>;
          buf \<leftarrow> memset (InputBuffer s) NUL 300;
          let s = s\<lparr>InputBuffer := buf\<rparr>;
          Some (create_thread (create_ret t) s)
        }
      else Some s)"

text \<open>
  The second half: \<^verbatim>\<open>select\<close> and, when it reports data, \<^verbatim>\<open>recv\<close> of at most 300
  bytes into \<^verbatim>\<open>ReceiveBuffer\<close> and the \<^verbatim>\<open>switch\<close> on the number of bytes.
\<close>

definition received :: "globals \<Rightarrow> globals option" where
  "received s =
     do {
       msg \<leftarrow> cstring (ReceiveBuffer s);
       let s = emit [Print (TheySaid msg)] s;
       n \<leftarrow> strlen (ReceiveBuffer s);
       buf \<leftarrow> memset (ReceiveBuffer s) NUL n;
       Some (s\<lparr>ReceiveBuffer := buf\<rparr>)
     }"

definition poll :: "platform \<Rightarrow> tick \<Rightarrow> globals \<Rightarrow> globals option" where
  "poll p t s =
     (let s = emit [Select] s;
          SelectResponse = select_ret t in
      if SelectResponse = - 1 then Some (set_exit (emit (report_error p t) s))
      else if SelectResponse > 0 then
        (case recv_res t of
           RecvError \<Rightarrow> Some (set_exit (emit (Recv # report_error p t) s))
         | RecvData bytes \<Rightarrow>
             (let d = take 300 bytes;
                  s = emit [Recv] (s\<lparr>ReceiveBuffer := d @ drop (length d) (ReceiveBuffer s)\<rparr>)
              in if d = [] then Some (set_exit (emit [Print OtherPartyQuit] s))
                 else received s))
      else Some s)"

text \<open>
  The two halves of the loop body, the first one with the input thread: the thread, then
  the test of the flag and what depends on it.
\<close>

definition input_half :: "platform \<Rightarrow> tick \<Rightarrow> globals \<Rightarrow> globals option" where
  "input_half p t s = input_thread t s \<bind> input_ready p t"

definition Chat_body :: "platform \<Rightarrow> tick \<Rightarrow> globals \<Rightarrow> globals option" where
  "Chat_body p t s =
     do {
       s \<leftarrow> input_thread t s;
       s \<leftarrow> input_ready p t s;
       poll p t s
     }"

text \<open>
  \<^verbatim>\<open>do { ... } while (bPerformExit != true)\<close>, run on the iterations that the list
  describes. When the list ends first, the result is the state reached so far, with
  \<^verbatim>\<open>bPerformExit\<close> still false.
\<close>

fun Chat_loop :: "platform \<Rightarrow> tick list \<Rightarrow> globals \<Rightarrow> globals option" where
  "Chat_loop p [] s = Some s"
| "Chat_loop p (t # ts) s =
     (case Chat_body p t s of
        None \<Rightarrow> None
      | Some s' \<Rightarrow> if bPerformExit s' then Some s' else Chat_loop p ts s')"

text \<open>\<^verbatim>\<open>Chat\<close>; \<open>ret\<close> is what the first \<^verbatim>\<open>pthread_create\<close> returns.\<close>

definition Chat :: "platform \<Rightarrow> int \<Rightarrow> tick list \<Rightarrow> globals \<Rightarrow> globals option" where
  "Chat p ret ts s =
     (let s = s\<lparr>bPerformExit := False\<rparr>;
          s = s\<lparr>bHasMessageWaiting := False\<rparr>;
          s = emit [Print Connected] s;
          s = create_thread ret s
      in Chat_loop p ts s)"



section \<open>The prompts for the port and the address\<close>

text \<open>
  \<^verbatim>\<open>isspace\<close> and \<^verbatim>\<open>isdigit\<close> of \<^verbatim>\<open>ctype.h\<close>, in the C locale. No byte above
  \<^verbatim>\<open>0x7F\<close> is a digit.
\<close>

definition isspace :: "char \<Rightarrow> bool" where
  "isspace c = (c \<in> set [CHR '' '', CHR 0x09, CHR 0x0A, CHR 0x0B, CHR 0x0C, CHR 0x0D])"

definition isdigit :: "char \<Rightarrow> bool" where
  "isdigit c = (c \<in> set ''0123456789'')"

text \<open>The value of a string of decimal digits, from the left.\<close>

fun decimal :: "nat \<Rightarrow> string \<Rightarrow> nat" where
  "decimal acc [] = acc"
| "decimal acc (c # cs) = decimal (10 * acc + (of_char c - 48)) cs"

text \<open>
  The number at the head of a string as \<^verbatim>\<open>strtol\<close> with base 10 reads it, which is how
  \<^verbatim>\<open>%d\<close> and \<^verbatim>\<open>atoi\<close> read it: white space, an optional sign, decimal digits.
  \<^term>\<open>None\<close> when no digit stands there.
\<close>

definition scan_int :: "string \<Rightarrow> int option" where
  "scan_int str =
     (let s1 = dropWhile isspace str;
          negative = (s1 \<noteq> [] \<and> hd s1 = CHR ''-'');
          s2 = (if s1 \<noteq> [] \<and> (hd s1 = CHR ''-'' \<or> hd s1 = CHR ''+'') then tl s1 else s1);
          digits = takeWhile isdigit s2
      in if digits = [] then None
         else Some (if negative then - int (decimal 0 digits) else int (decimal 0 digits)))"

definition INT_MAX :: int where "INT_MAX = 2147483647"
definition INT_MIN :: int where "INT_MIN = - 2147483648"

text \<open>
  \<^verbatim>\<open>sscanf(str, "%d", &n)\<close>: the return value and the new value of \<^verbatim>\<open>n\<close>. A number
  that an \<^verbatim>\<open>int\<close> cannot hold is undefined behaviour. \<^verbatim>\<open>EOF\<close> is \<^verbatim>\<open>-1\<close>.
\<close>

definition sscanf_d :: "string \<Rightarrow> int \<Rightarrow> (int \<times> int) option" where
  "sscanf_d str n =
     (case scan_int str of
        None \<Rightarrow> Some (if dropWhile isspace str = [] then - 1 else 0, n)
      | Some v \<Rightarrow> if INT_MIN \<le> v \<and> v \<le> INT_MAX then Some (1, v) else None)"

text \<open>\<^verbatim>\<open>atoi\<close>; undefined when an \<^verbatim>\<open>int\<close> cannot hold the number.\<close>

definition atoi :: "string \<Rightarrow> int option" where
  "atoi str =
     (case scan_int str of
        None \<Rightarrow> Some 0
      | Some v \<Rightarrow> if INT_MIN \<le> v \<and> v \<le> INT_MAX then Some v else None)"

text \<open>
  \<^verbatim>\<open>sscanf(str, "%s", word)\<close>: the first word of the string, \<^term>\<open>None\<close> when the
  string has none (the call then returns \<^verbatim>\<open>EOF\<close> and stores nothing).
\<close>

definition sscanf_s :: "string \<Rightarrow> string option" where
  "sscanf_s str =
     (let w = takeWhile (\<lambda>c. \<not> isspace c) (dropWhile isspace str)
      in if w = [] then None else Some w)"

text \<open>
  \<^verbatim>\<open>GetValidPortNo\<close>. The loop runs until a line is accepted; \<open>k\<close> bounds the number
  of prompts, and \<^term>\<open>None\<close> also stands for a run that needs more of them. At the end of
  the input \<^verbatim>\<open>fgets\<close> leaves \<^verbatim>\<open>InputBuffer\<close> as it is, and the loop goes on.
\<close>

fun GetValidPortNo :: "nat \<Rightarrow> int \<Rightarrow> globals \<Rightarrow> (int \<times> globals) option" where
  "GetValidPortNo 0 PortNo s = None"
| "GetValidPortNo (Suc k) PortNo s =
     (let s = (if ConnectionMode s = CLIENT then emit [Print AskPortClient] s else s);
          s = (if ConnectionMode s = SERVER then emit [Print AskPortServer] s else s);
          s = (case fgets (InputBuffer s) 300 (stdin s) of
                 (buf, rest) \<Rightarrow> s\<lparr>InputBuffer := buf, stdin := rest\<rparr>)
      in do {
           str \<leftarrow> cstring (InputBuffer s);
           (ret, PortNo) \<leftarrow> sscanf_d str PortNo;
           if ret = 1 \<and> PortNo < 65535 \<and> PortNo > 0 then Some (PortNo, s)
           else GetValidPortNo k PortNo (emit [Print InvalidPort] s)
         })"

text \<open>
  The \<^verbatim>\<open>for\<close> loop of \<^verbatim>\<open>GetValidIP\<close> over the characters of the word, with
  \<^verbatim>\<open>LastIPOctet\<close> (an array of 20 bytes, here the string it holds) and
  \<^verbatim>\<open>OctetCounter\<close>. The result is \<^verbatim>\<open>bValidInput\<close> and the two variables as the loop
  leaves them.
\<close>

fun validate_chars :: "string \<Rightarrow> string \<Rightarrow> int \<Rightarrow> (bool \<times> string \<times> int) option" where
  "validate_chars [] LastIPOctet OctetCounter = Some (True, LastIPOctet, OctetCounter)"
| "validate_chars (InputChar # cs) LastIPOctet OctetCounter =
     (if \<not> isdigit InputChar \<and> InputChar \<noteq> CHR ''.''
      then Some (False, LastIPOctet, OctetCounter)
      else if InputChar = CHR ''.'' \<and> length LastIPOctet = 0
      then Some (False, LastIPOctet, OctetCounter)
      else
        (let OctetCounter = (if InputChar = CHR ''.'' then OctetCounter + 1 else OctetCounter)
         in if InputChar = CHR ''.'' \<and> length LastIPOctet > 0
            then do {
                   n \<leftarrow> atoi LastIPOctet;
                   if n > 255 \<or> n < 0 then Some (False, LastIPOctet, OctetCounter)
                   else validate_chars cs [] OctetCounter
                 }
            else if length LastIPOctet + 1 < 20
            then validate_chars cs (LastIPOctet @ [InputChar]) OctetCounter
            else None))"

text \<open>The checks on the word, the two after the loop included.\<close>

definition validate_ip :: "string \<Rightarrow> bool option" where
  "validate_ip IPAddressBuffer =
     do {
       (bValidInput, LastIPOctet, OctetCounter) \<leftarrow> validate_chars IPAddressBuffer [] 0;
       let bValidInput = (if OctetCounter \<noteq> 3 then False else bValidInput);
       n \<leftarrow> atoi LastIPOctet;
       Some (if n > 255 \<or> n < 0 then False else bValidInput)
     }"

text \<open>
  \<^verbatim>\<open>GetValidIP\<close>, with the same bound on the prompts. \<^verbatim>\<open>IPAddressBuffer\<close> has 50
  bytes; a longer word overflows it.
\<close>

fun GetValidIP :: "nat \<Rightarrow> string \<Rightarrow> globals \<Rightarrow> (string \<times> globals) option" where
  "GetValidIP 0 IPAddressBuffer s = None"
| "GetValidIP (Suc k) IPAddressBuffer s =
     (let s = emit [Print AskIP] s;
          s = (case fgets (InputBuffer s) 300 (stdin s) of
                 (buf, rest) \<Rightarrow> s\<lparr>InputBuffer := buf, stdin := rest\<rparr>)
      in do {
           str \<leftarrow> cstring (InputBuffer s);
           case sscanf_s str of
             None \<Rightarrow> GetValidIP k IPAddressBuffer (emit [Print InvalidIP] s)
           | Some w \<Rightarrow>
               if length w < 50
               then do {
                      bValidInput \<leftarrow> validate_ip w;
                      if bValidInput then Some (w, s)
                      else GetValidIP k w (emit [Print InvalidIP] s)
                    }
               else None
         })"

section \<open>Connection set-up and \<^verbatim>\<open>main\<close>\<close>


















section \<open>The trimming as the specification words it\<close>

text \<open>
  "The line with a single trailing newline stripped and, if one is then present at the
  end, a carriage return stripped as well."
\<close>

definition strip_trailing :: "char \<Rightarrow> string \<Rightarrow> string" where
  "strip_trailing c l = (if l \<noteq> [] \<and> last l = c then butlast l else l)"

definition trimmed :: "string \<Rightarrow> string" where
  "trimmed l = strip_trailing CR (strip_trailing NL l)"

text \<open>The part of a line before its first NUL byte; the whole line when it has none.\<close>

definition c_prefix :: "string \<Rightarrow> string" where
  "c_prefix l = takeWhile (\<lambda>c. c \<noteq> NUL) l"

section \<open>The loop and the input thread, step by step\<close>

text \<open>
  For the hand-over of \<^verbatim>\<open>InputBuffer\<close> the two threads are run as an interleaving of
  their steps. A step is a statement of \<^verbatim>\<open>Chat\<close> or of \<^verbatim>\<open>WaitForUserInput\<close> that
  touches the flag, the buffer or a thread; the contents of the buffers play no part here
  and are left out. Where the loop stands:
\<close>

datatype loop_point =
    L_create_first   \<comment> \<open>the \<^verbatim>\<open>pthread_create\<close> before the loop\<close>
  | L_test_flag      \<comment> \<open>\<^verbatim>\<open>if (bHasMessageWaiting)\<close>\<close>
  | L_join           \<comment> \<open>\<^verbatim>\<open>pthread_join(InputThread, NULL)\<close>\<close>
  | L_send           \<comment> \<open>\<^verbatim>\<open>send(.., InputBuffer, strlen(InputBuffer), 0)\<close>: reads \<^verbatim>\<open>InputBuffer\<close>\<close>
  | L_reset_flag     \<comment> \<open>\<^verbatim>\<open>bHasMessageWaiting = false\<close>\<close>
  | L_memset         \<comment> \<open>\<^verbatim>\<open>memset(InputBuffer, '\0', 300)\<close>: writes \<^verbatim>\<open>InputBuffer\<close>\<close>
  | L_create         \<comment> \<open>the \<^verbatim>\<open>pthread_create\<close> in the loop\<close>
  | L_select         \<comment> \<open>\<^verbatim>\<open>select\<close>\<close>
  | L_recv           \<comment> \<open>\<^verbatim>\<open>recv\<close> and the \<^verbatim>\<open>switch\<close> on its result\<close>
  | L_test_exit      \<comment> \<open>\<^verbatim>\<open>while (bPerformExit != true)\<close>\<close>
  | L_returned       \<comment> \<open>\<^verbatim>\<open>Chat\<close> has returned\<close>

text \<open>Where an input thread stands, from its creation until it has been joined.\<close>

datatype task_point =
    T_fgets          \<comment> \<open>\<^verbatim>\<open>fgets(InputBuffer, 300, stdin)\<close>: writes \<^verbatim>\<open>InputBuffer\<close>\<close>
  | T_trim_newline   \<comment> \<open>the first trimming step: reads and writes \<^verbatim>\<open>InputBuffer\<close>\<close>
  | T_trim_return    \<comment> \<open>the second trimming step: reads and writes \<^verbatim>\<open>InputBuffer\<close>\<close>
  | T_set_flag       \<comment> \<open>\<^verbatim>\<open>bHasMessageWaiting = true\<close>\<close>
  | T_exit           \<comment> \<open>\<^verbatim>\<open>pthread_exit(NULL)\<close>\<close>
  | T_exited         \<comment> \<open>the thread has ended and waits to be joined\<close>
  | T_joined         \<comment> \<open>the thread has been joined\<close>

text \<open>
  The threads created so far stand in \<open>tasks\<close>, the newest first; \<^verbatim>\<open>InputThread\<close>
  names the newest.
\<close>

record config =
  loop_at :: loop_point
  tasks :: "task_point list"
  flag :: bool                 \<comment> \<open>\<^verbatim>\<open>bHasMessageWaiting\<close>\<close>
  leave :: bool                \<comment> \<open>\<^verbatim>\<open>bPerformExit\<close>\<close>

text \<open>
  Who moves next: the input thread with the given position in \<open>tasks\<close>, or the loop,
  with the return value of the call it makes in that step, if it makes one.
\<close>

datatype action = Task nat | Loop int

text \<open>\<^verbatim>\<open>pthread_create\<close> returning \<open>r\<close>.\<close>

definition spawn :: "int \<Rightarrow> task_point list \<Rightarrow> task_point list" where
  "spawn r ts = (if r = 0 then T_fgets # ts else ts)"

text \<open>
  One step of the loop. \<^verbatim>\<open>pthread_join\<close> waits while the newest thread runs: the loop
  has no step then. With no thread to join it returns an error at once, which the
  program does not look at.
\<close>

fun loop_step :: "int \<Rightarrow> config \<Rightarrow> config option" where
  "loop_step r c =
     (case loop_at c of
        L_create_first \<Rightarrow> Some (c\<lparr>tasks := spawn r (tasks c), loop_at := L_test_flag\<rparr>)
      | L_test_flag \<Rightarrow> Some (c\<lparr>loop_at := (if flag c then L_join else L_select)\<rparr>)
      | L_join \<Rightarrow>
          (case tasks c of
             [] \<Rightarrow> Some (c\<lparr>loop_at := L_send\<rparr>)
           | t # ts \<Rightarrow>
               if t = T_exited then Some (c\<lparr>tasks := T_joined # ts, loop_at := L_send\<rparr>)
               else if t = T_joined then Some (c\<lparr>loop_at := L_send\<rparr>)
               else None)
      | L_send \<Rightarrow> Some (c\<lparr>leave := (leave c \<or> r = - 1), loop_at := L_reset_flag\<rparr>)
      | L_reset_flag \<Rightarrow> Some (c\<lparr>flag := False, loop_at := L_memset\<rparr>)
      | L_memset \<Rightarrow> Some (c\<lparr>loop_at := L_create\<rparr>)
      | L_create \<Rightarrow> Some (c\<lparr>tasks := spawn r (tasks c), loop_at := L_select\<rparr>)
      | L_select \<Rightarrow>
          Some (if r = - 1 then c\<lparr>leave := True, loop_at := L_test_exit\<rparr>
                else if r > 0 then c\<lparr>loop_at := L_recv\<rparr>
                else c\<lparr>loop_at := L_test_exit\<rparr>)
      | L_recv \<Rightarrow> Some (c\<lparr>leave := (leave c \<or> r = - 1 \<or> r = 0), loop_at := L_test_exit\<rparr>)
      | L_test_exit \<Rightarrow> Some (c\<lparr>loop_at := (if leave c then L_returned else L_test_flag)\<rparr>)
      | L_returned \<Rightarrow> None)"

text \<open>One step of an input thread; a thread that has ended has none.\<close>

fun task_step :: "nat \<Rightarrow> config \<Rightarrow> config option" where
  "task_step i c =
     (if i < length (tasks c) then
        (case tasks c ! i of
           T_fgets \<Rightarrow> Some (c\<lparr>tasks := (tasks c)[i := T_trim_newline]\<rparr>)
         | T_trim_newline \<Rightarrow> Some (c\<lparr>tasks := (tasks c)[i := T_trim_return]\<rparr>)
         | T_trim_return \<Rightarrow> Some (c\<lparr>tasks := (tasks c)[i := T_set_flag]\<rparr>)
         | T_set_flag \<Rightarrow> Some (c\<lparr>flag := True, tasks := (tasks c)[i := T_exit]\<rparr>)
         | T_exit \<Rightarrow> Some (c\<lparr>tasks := (tasks c)[i := T_exited]\<rparr>)
         | T_exited \<Rightarrow> None
         | T_joined \<Rightarrow> None)
      else None)"

fun step :: "action \<Rightarrow> config \<Rightarrow> config option" where
  "step (Task i) c = task_step i c"
| "step (Loop r) c = loop_step r c"

text \<open>
  An interleaving is a list of actions; it is run from the left, and it is an execution
  when every action has a step where it stands.
\<close>

fun run :: "action list \<Rightarrow> config \<Rightarrow> config option" where
  "run [] c = Some c"
| "run (a # as) c = (case step a c of None \<Rightarrow> None | Some c' \<Rightarrow> run as c')"

text \<open>
  \<^verbatim>\<open>Chat\<close> when it has set both flags to false and is about to create the first thread.
\<close>

definition start :: config where
  "start = \<lparr>loop_at = L_create_first, tasks = [], flag = False, leave = False\<rparr>"

text \<open>
  A thread that still has a write of \<^verbatim>\<open>InputBuffer\<close> before it; a thread that still
  runs; the points at which the loop reads or writes \<^verbatim>\<open>InputBuffer\<close>.
\<close>

definition writing :: "task_point \<Rightarrow> bool" where
  "writing t = (t = T_fgets \<or> t = T_trim_newline \<or> t = T_trim_return)"

definition active :: "task_point \<Rightarrow> bool" where
  "active t = (t \<noteq> T_exited \<and> t \<noteq> T_joined)"

definition joined :: "task_point \<Rightarrow> bool" where
  "joined t = (t = T_joined)"

definition uses_InputBuffer :: "loop_point \<Rightarrow> bool" where
  "uses_InputBuffer l = (l = L_send \<or> l = L_memset)"

text \<open>
  What holds between the flag, the newest thread and the place of the loop in every
  execution.
\<close>

definition newest :: "config \<Rightarrow> task_point" where
  "newest c = (case tasks c of [] \<Rightarrow> T_joined | t # ts \<Rightarrow> t)"

definition handoff :: "config \<Rightarrow> bool" where
  "handoff c =
     (list_all joined (drop 1 (tasks c))
      \<and> (case loop_at c of
           L_create_first \<Rightarrow> tasks c = [] \<and> \<not> flag c
         | L_join \<Rightarrow> flag c \<and> (newest c = T_exit \<or> newest c = T_exited)
         | L_send \<Rightarrow> flag c \<and> newest c = T_joined
         | L_reset_flag \<Rightarrow> flag c \<and> newest c = T_joined
         | L_memset \<Rightarrow> \<not> flag c \<and> newest c = T_joined
         | L_create \<Rightarrow> \<not> flag c \<and> newest c = T_joined
         | _ \<Rightarrow> if flag c then newest c = T_exit \<or> newest c = T_exited
                else newest c \<noteq> T_exit \<and> newest c \<noteq> T_exited))"

section \<open>Reading a trace\<close>

text \<open>The byte sequences handed to \<^verbatim>\<open>send\<close>, in order.\<close>

fun transmitted :: "event list \<Rightarrow> string list" where
  "transmitted [] = []"
| "transmitted (Send m # es) = m # transmitted es"
| "transmitted (e # es) = transmitted es"

text \<open>The calls on the socket among the events: \<^verbatim>\<open>send\<close>, \<^verbatim>\<open>select\<close>, \<^verbatim>\<open>recv\<close>.\<close>

fun is_socket_op :: "event \<Rightarrow> bool" where
  "is_socket_op (Send m) = True"
| "is_socket_op Select = True"
| "is_socket_op Recv = True"
| "is_socket_op e = False"

definition socket_ops :: "event list \<Rightarrow> event list" where
  "socket_ops evs = filter is_socket_op evs"

text \<open>The events after the first assignment \<^verbatim>\<open>bPerformExit = true\<close>.\<close>

definition after_exit :: "event list \<Rightarrow> event list" where
  "after_exit evs = drop 1 (dropWhile (\<lambda>e. e \<noteq> SetExit) evs)"



text \<open>The value that a prompt returns, with what the program has printed.\<close>

definition answer :: "('a \<times> globals) option \<Rightarrow> ('a \<times> event list) option" where
  "answer r = map_option (\<lambda>(x, s). (x, trace s)) r"


section \<open>Sample states and answers\<close>

text \<open>A session whose input thread waits for the keyboard to deliver \<open>inp\<close>.\<close>

definition reading :: "string \<Rightarrow> globals" where
  "reading inp = (initial inp)\<lparr>thread_reading := True\<rparr>"

text \<open>
  An iteration in which the input thread has finished, \<^verbatim>\<open>send\<close> and
  \<^verbatim>\<open>pthread_create\<close> succeed, and \<^verbatim>\<open>select\<close> reports no data.
\<close>

definition quiet :: tick where
  "quiet = \<lparr>input_done = True, send_ret = 0, create_ret = 0, select_ret = 0,
             recv_res = RecvData [], last_error = 0\<rparr>"

text \<open>
  An iteration in which the input thread has finished and \<^verbatim>\<open>send\<close> fails, while the
  message \<^verbatim>\<open>yo\<close> of the peer waits in the socket.
\<close>

definition send_fails :: tick where
  "send_fails = quiet\<lparr>send_ret := - 1, select_ret := 1, recv_res := RecvData ''yo''\<rparr>"

text \<open>A loop that finds the flag set; \<^verbatim>\<open>InputBuffer\<close> holds the empty string.\<close>

definition flagged :: globals where
  "flagged = (initial [])\<lparr>bHasMessageWaiting := True\<rparr>"

text \<open>A program that is about to ask for a port or an address in mode \<open>m\<close>.\<close>

definition asking :: "mode \<Rightarrow> string \<Rightarrow> globals" where
  "asking m inp = (initial inp)\<lparr>ConnectionMode := m\<rparr>"






text \<open>
  An interleaving in which the user finishes a line between two polls: the thread is
  created, reads and trims while the loop polls, sets the flag and ends; the loop sees the
  flag, joins the thread and stands before \<^verbatim>\<open>send\<close>.
\<close>

definition a_line_typed :: "action list" where
  "a_line_typed =
     [Loop 0, Loop 0, Task 0, Loop 0, Task 0, Task 0, Loop 0, Task 0, Loop 0, Task 0, Loop 0]"

section \<open>Facts about the library functions\<close>

lemma strlen_append_NUL:
  "NUL \<notin> set l \<Longrightarrow> strlen (l @ NUL # r) = Some (length l)"
  by (induction l) auto

lemma strlen_replicate_NUL: "0 < n \<Longrightarrow> strlen (replicate n NUL) = Some 0"
  by (cases n) auto

lemma read_line_Cons:
  "read_line n (c # inp) =
     (if n = 0 then ([], c # inp) else if c = NL then ([c], inp)
      else (case read_line (n - 1) inp of (l, rest) \<Rightarrow> (c # l, rest)))"
  by (cases n) auto

lemma read_line_Nil: "read_line n [] = ([], [])"
  by (cases n) auto

lemma read_line_length: "read_line n inp = (l, rest) \<Longrightarrow> length l \<le> n"
  by (induction n inp arbitrary: l rest rule: read_line.induct)
    (auto split: if_splits prod.splits)

lemma read_line_append: "read_line n inp = (l, rest) \<Longrightarrow> l @ rest = inp"
  by (induction n inp arbitrary: l rest rule: read_line.induct)
    (auto split: if_splits prod.splits)

lemma read_line_newline: "read_line n inp = (l, rest) \<Longrightarrow> NL \<notin> set (butlast l)"
  by (induction n inp arbitrary: l rest rule: read_line.induct)
    (auto split: if_splits prod.splits)

lemma unat_LastChar:
  assumes "n < 2 ^ 64"
  shows "unat ((word_of_nat n :: size_t) - 1) = (if n = 0 then 2 ^ 64 - 1 else n - 1)"
proof (cases n)
  case 0
  then show ?thesis by (simp add: unsigned_minus_1_eq_mask mask_eq_exp_minus_1)
next
  case (Suc m)
  then have "(word_of_nat n :: size_t) - 1 = word_of_nat m" by simp
  moreover have "unat (word_of_nat m :: size_t) = m"
    using assms Suc by (simp add: unat_of_nat)
  ultimately show ?thesis using Suc by simp
qed

lemma strlen_None: "NUL \<notin> set buf \<Longrightarrow> strlen buf = None"
  by (induction buf) auto

lemma cstring_append_NUL: "NUL \<notin> set l \<Longrightarrow> cstring (l @ NUL # r) = Some l"
  by (simp add: cstring_def strlen_append_NUL)

lemma split_at_NUL:
  "\<exists>r. l @ NUL # t = takeWhile (\<lambda>c. c \<noteq> NUL) l @ NUL # r"
  by (induction l) auto

lemma nth_last_prefix: "l \<noteq> [] \<Longrightarrow> (l @ r) ! (length l - 1) = last l"
  by (simp add: nth_append last_conv_nth)

lemma update_last_prefix: "l \<noteq> [] \<Longrightarrow> (l @ r)[length l - 1 := x] = butlast l @ x # r"
  by (induction l) (auto split: nat.splits)

text \<open>
  A trimming step on an empty C string reads \<^verbatim>\<open>buf[SIZE_MAX]\<close>; on a string that is
  not empty it reads its last byte.
\<close>

lemma trim_last_empty:
  assumes "strlen buf = Some 0" and "length buf < 2 ^ 64"
  shows "trim_last c buf = None"
proof -
  have "unat (- 1 :: size_t) = 2 ^ 64 - 1"
    by (simp add: unsigned_minus_1_eq_mask mask_eq_exp_minus_1)
  then show ?thesis
    using assms by (simp add: trim_last_def buf_get_def Let_def)
qed

lemma trim_last_nonempty:
  assumes "NUL \<notin> set l" and "l \<noteq> []" and "length (l @ NUL # r) < 2 ^ 64"
  shows "trim_last c (l @ NUL # r) =
           Some (if last l = c then butlast l @ NUL # NUL # r else l @ NUL # r)"
proof -
  have n: "strlen (l @ NUL # r) = Some (length l)"
    using assms(1) by (rule strlen_append_NUL)
  have u: "unat ((word_of_nat (length l) :: size_t) - 1) = length l - 1"
    using assms(2,3) by (simp add: unat_LastChar)
  show ?thesis
    using assms(2)
    by (simp add: trim_last_def n u buf_get_def buf_set_def nth_last_prefix update_last_prefix
        Let_def del: One_nat_def)
qed

section \<open>What the input thread leaves in the buffer, and what is sent\<close>

lemma c_prefix_no_NUL: "NUL \<notin> set (c_prefix l)"
  unfolding c_prefix_def by (induction l) auto

lemma strip_trailing_no_NUL: "NUL \<notin> set l \<Longrightarrow> NUL \<notin> set (strip_trailing c l)"
  by (auto simp: strip_trailing_def dest: in_set_butlastD)

lemma fgets_line:
  assumes "read_line (n - 1) inp = (l, rest)" and "l \<noteq> []" and "length buf = n"
  shows "\<exists>r. fgets buf n inp = (c_prefix l @ NUL # r, rest) \<and> length (c_prefix l @ NUL # r) = n"
proof -
  have le: "length l \<le> n - 1" using assms(1) by (rule read_line_length)
  with assms(2) have "0 < n" by (cases n) auto
  obtain r where r: "l @ NUL # drop (length l + 1) buf = c_prefix l @ NUL # r"
    using split_at_NUL [of l] unfolding c_prefix_def by blast
  have "length (c_prefix l @ NUL # r) = length (l @ NUL # drop (length l + 1) buf)"
    by (simp only: r)
  also have "\<dots> = n"
    using le assms(3) \<open>0 < n\<close> by simp
  finally have "length (c_prefix l @ NUL # r) = n" .
  moreover have "fgets buf n inp = (c_prefix l @ NUL # r, rest)"
    using assms(1,2) r by (simp add: fgets_def)
  ultimately show ?thesis by blast
qed

lemma trim_last_cstring:
  assumes "NUL \<notin> set l" and "l \<noteq> []" and "length (l @ NUL # r) < 2 ^ 64"
  shows "\<exists>r'. trim_last c (l @ NUL # r) = Some (strip_trailing c l @ NUL # r')
           \<and> length (strip_trailing c l @ NUL # r') = length (l @ NUL # r)"
proof (cases "last l = c")
  case True
  then have "trim_last c (l @ NUL # r) = Some (strip_trailing c l @ NUL # (NUL # r))"
    using assms by (simp add: trim_last_nonempty strip_trailing_def)
  moreover have "length (strip_trailing c l @ NUL # (NUL # r)) = length (l @ NUL # r)"
    using True assms(2) by (simp add: strip_trailing_def)
  ultimately show ?thesis by blast
next
  case False
  then have "trim_last c (l @ NUL # r) = Some (strip_trailing c l @ NUL # r)"
    using assms by (simp add: trim_last_nonempty strip_trailing_def)
  moreover have "length (strip_trailing c l @ NUL # r) = length (l @ NUL # r)"
    using False by (simp add: strip_trailing_def)
  ultimately show ?thesis by blast
qed

lemma WaitForUserInput_trimmed:
  assumes rl: "read_line 299 (stdin s) = (l, rest)"
    and len: "length (InputBuffer s) = 300"
    and ne: "strip_trailing NL (c_prefix l) \<noteq> []"
  shows "\<exists>buf. WaitForUserInput s =
            Some (s\<lparr>InputBuffer := buf, stdin := rest, bHasMessageWaiting := True,
                    thread_reading := False\<rparr>)
          \<and> cstring buf = Some (trimmed (c_prefix l)) \<and> length buf = 300"
proof -
  from ne have l0: "c_prefix l \<noteq> []" by (auto simp: strip_trailing_def)
  then have "l \<noteq> []" by (auto simp: c_prefix_def)
  with rl len obtain r0 where
    f: "fgets (InputBuffer s) 300 (stdin s) = (c_prefix l @ NUL # r0, rest)"
    and n0: "length (c_prefix l @ NUL # r0) = 300"
    using fgets_line [of 300 "stdin s" l rest "InputBuffer s"] by auto
  obtain r1 where
    t1: "trim_last NL (c_prefix l @ NUL # r0) = Some (strip_trailing NL (c_prefix l) @ NUL # r1)"
    and n1: "length (strip_trailing NL (c_prefix l) @ NUL # r1) = 300"
    using trim_last_cstring [OF c_prefix_no_NUL l0, of r0 NL] n0 by auto
  have nn: "NUL \<notin> set (strip_trailing NL (c_prefix l))"
    by (rule strip_trailing_no_NUL [OF c_prefix_no_NUL])
  obtain r2 where
    t2: "trim_last CR (strip_trailing NL (c_prefix l) @ NUL # r1) =
           Some (trimmed (c_prefix l) @ NUL # r2)"
    and n2: "length (trimmed (c_prefix l) @ NUL # r2) = 300"
    using trim_last_cstring [OF nn ne, of r1 CR] n1 unfolding trimmed_def by auto
  have "NUL \<notin> set (trimmed (c_prefix l))"
    unfolding trimmed_def by (rule strip_trailing_no_NUL [OF nn])
  then have "cstring (trimmed (c_prefix l) @ NUL # r2) = Some (trimmed (c_prefix l))"
    by (rule cstring_append_NUL)
  moreover have "WaitForUserInput s =
      Some (s\<lparr>InputBuffer := trimmed (c_prefix l) @ NUL # r2, stdin := rest,
              bHasMessageWaiting := True, thread_reading := False\<rparr>)"
    by (simp add: WaitForUserInput_def f t1 t2)
  ultimately show ?thesis using n2 by blast
qed

text \<open>
  On the line of only a newline the second trimming step reads outside the array,
  whatever \<^verbatim>\<open>InputBuffer\<close> held before.
\<close>

lemma WaitForUserInput_bare_newline:
  assumes "length (InputBuffer s) = 300" and "read_line 299 (stdin s) = ([NL], rest)"
  shows "WaitForUserInput s = None"
proof -
  have nl: "NL \<noteq> NUL" by (simp add: NL_def NUL_def)
  have f: "fgets (InputBuffer s) 300 (stdin s) = ([NL] @ NUL # drop 2 (InputBuffer s), rest)"
    using assms(2) by (simp add: fgets_def numeral_2_eq_2)
  have "trim_last NL ([NL] @ NUL # drop 2 (InputBuffer s)) =
          Some (NUL # NUL # drop 2 (InputBuffer s))"
    using assms(1) nl by (subst trim_last_nonempty) auto
  moreover have "trim_last CR (NUL # NUL # drop 2 (InputBuffer s)) = None"
    using assms(1) by (intro trim_last_empty) auto
  ultimately show ?thesis
    by (simp add: WaitForUserInput_def f)
qed

text \<open>
  The same at the end of the input, when \<^verbatim>\<open>fgets\<close> reads nothing into a cleared
  buffer: the first trimming step reads outside the array.
\<close>

lemma WaitForUserInput_end_of_file:
  assumes "InputBuffer s = replicate 300 NUL" and "stdin s = []"
  shows "WaitForUserInput s = None"
proof -
  have "trim_last NL (replicate 300 NUL) = None"
    by (intro trim_last_empty) (auto simp: strlen_replicate_NUL)
  then show ?thesis
    using assms by (simp add: WaitForUserInput_def fgets_def read_line_Nil)
qed

lemma transmitted_append: "transmitted (xs @ ys) = transmitted xs @ transmitted ys"
  by (induction xs rule: transmitted.induct) auto

lemma transmitted_report_error: "transmitted (report_error p t) = []"
  by (cases p) (auto simp: report_error_def Let_def)

text \<open>
  Claim C2 says that for every line the keyboard read delivers, the line of only a newline
  included, the trimming reads \<^verbatim>\<open>InputBuffer\<close> only inside its 300 bytes. The code
  does not do so: on the line of only a newline the first step empties the string, the
  second computes \<^verbatim>\<open>strlen(InputBuffer) - 1\<close> as \<^verbatim>\<open>SIZE_MAX\<close>, and the read at that
  index is outside the array.
\<close>

theorem bare_newline_reads_out_of_bounds: "WaitForUserInput (initial [NL]) = None"
  by (rule WaitForUserInput_bare_newline [where rest = "[]"])
    (simp_all add: initial_def read_line_Cons)

lemma input_ready_eq:
  assumes "bHasMessageWaiting s" and "cstring (InputBuffer s) = Some msg"
    and "length (InputBuffer s) = 300"
  shows "input_ready p t s =
     Some (s\<lparr>bHasMessageWaiting := False,
             bPerformExit := bPerformExit s \<or> send_ret t = SOCKET_ERROR,
             InputBuffer := replicate 300 NUL,
             thread_reading := thread_reading s \<or> create_ret t = 0,
             trace := trace s @ [ThreadJoin, Send msg]
               @ (if send_ret t = SOCKET_ERROR then report_error p t @ [SetExit] else [])
               @ ThreadCreate # (if create_ret t \<noteq> 0 then [Print ErrorCreatingThread] else [])\<rparr>)"
  using assms
  by (simp add: input_ready_def emit_def set_exit_def create_thread_def memset_def Let_def)

lemma input_half_eq:
  assumes "thread_reading s" and "input_done t"
    and "length (InputBuffer s) = 300"
    and "read_line 299 (stdin s) = (l, rest)"
    and "strip_trailing NL (c_prefix l) \<noteq> []"
  shows "input_half p t s =
     Some (s\<lparr>bHasMessageWaiting := False,
             bPerformExit := bPerformExit s \<or> send_ret t = SOCKET_ERROR,
             InputBuffer := replicate 300 NUL,
             stdin := rest,
             thread_reading := (create_ret t = 0),
             trace := trace s @ [ThreadJoin, Send (trimmed (c_prefix l))]
               @ (if send_ret t = SOCKET_ERROR then report_error p t @ [SetExit] else [])
               @ ThreadCreate # (if create_ret t \<noteq> 0 then [Print ErrorCreatingThread] else [])\<rparr>)"
proof -
  obtain buf where
    w: "WaitForUserInput s =
          Some (s\<lparr>InputBuffer := buf, stdin := rest, bHasMessageWaiting := True,
                  thread_reading := False\<rparr>)"
    and c: "cstring buf = Some (trimmed (c_prefix l))" and n: "length buf = 300"
    using WaitForUserInput_trimmed [OF assms(4,3,5)] by blast
  define s1 where "s1 = s\<lparr>InputBuffer := buf, stdin := rest, bHasMessageWaiting := True,
                          thread_reading := False\<rparr>"
  have "input_thread t s = Some s1"
    using assms(1,2) w by (simp add: input_thread_def s1_def)
  then have "input_half p t s = input_ready p t s1"
    by (simp add: input_half_def)
  also have "\<dots> = Some (s1\<lparr>bHasMessageWaiting := False,
             bPerformExit := bPerformExit s1 \<or> send_ret t = SOCKET_ERROR,
             InputBuffer := replicate 300 NUL,
             thread_reading := thread_reading s1 \<or> create_ret t = 0,
             trace := trace s1 @ [ThreadJoin, Send (trimmed (c_prefix l))]
               @ (if send_ret t = SOCKET_ERROR then report_error p t @ [SetExit] else [])
               @ ThreadCreate # (if create_ret t \<noteq> 0 then [Print ErrorCreatingThread] else [])\<rparr>)"
    by (rule input_ready_eq) (simp_all add: s1_def c n)
  finally show ?thesis
    by (simp add: s1_def)
qed

text \<open>
  Claim C1, as the code has it: for every line that one blocking read delivers (at most
  299 bytes, a newline only as its last byte), the bytes handed to \<^verbatim>\<open>send\<close> are the
  part of the line before its first NUL byte (the whole line when it has none) with one
  trailing newline stripped and then one trailing carriage return stripped, and nothing
  else is sent for it, provided that part still has a byte once the newline is stripped.
  No other byte is altered. The line without such a byte is the subject of claim C2.
\<close>

theorem transmitted_line_is_trimmed:
  assumes "thread_reading s" and "input_done t"
    and "length (InputBuffer s) = 300"
    and "read_line 299 (stdin s) = (l, rest)"
    and "strip_trailing NL (c_prefix l) \<noteq> []"
  shows "\<exists>s'. input_half p t s = Some s'
           \<and> transmitted (trace s') = transmitted (trace s) @ [trimmed (c_prefix l)]"
proof -
  have "transmitted ([ThreadJoin, Send (trimmed (c_prefix l))]
      @ (if send_ret t = SOCKET_ERROR then report_error p t @ [SetExit] else [])
      @ ThreadCreate # (if create_ret t \<noteq> 0 then [Print ErrorCreatingThread] else []))
    = [trimmed (c_prefix l)]"
    by (simp add: transmitted_append transmitted_report_error)
  then show ?thesis
    unfolding input_half_eq [OF assms] by (simp add: transmitted_append)
qed

lemmas chars = NUL_def NL_def CR_def

text \<open>The line \<^verbatim>\<open>hello\r\n\<close> is transmitted as \<^verbatim>\<open>hello\<close>.\<close>

theorem transmitted_line_is_trimmed_witness:
  "thread_reading (reading (''hello'' @ [CR, NL])) \<and> input_done quiet
   \<and> length (InputBuffer (reading (''hello'' @ [CR, NL]))) = 300
   \<and> read_line 299 (stdin (reading (''hello'' @ [CR, NL]))) = (''hello'' @ [CR, NL], [])
   \<and> strip_trailing NL (c_prefix (''hello'' @ [CR, NL])) \<noteq> []
   \<and> (\<exists>s'. input_half POSIX quiet (reading (''hello'' @ [CR, NL])) = Some s'
          \<and> transmitted (trace s') = [''hello''])"
proof -
  have h: "thread_reading (reading (''hello'' @ [CR, NL]))" "input_done quiet"
    "length (InputBuffer (reading (''hello'' @ [CR, NL]))) = 300"
    "read_line 299 (stdin (reading (''hello'' @ [CR, NL]))) = (''hello'' @ [CR, NL], [])"
    "strip_trailing NL (c_prefix (''hello'' @ [CR, NL])) \<noteq> []"
    by (simp_all add: reading_def initial_def quiet_def read_line_Cons chars
        strip_trailing_def c_prefix_def)
  have "trimmed (c_prefix (''hello'' @ [CR, NL])) = ''hello''"
    by (simp add: trimmed_def strip_trailing_def c_prefix_def chars)
  with transmitted_line_is_trimmed [OF h, of POSIX] h show ?thesis
    by (simp add: reading_def initial_def)
qed

text \<open>
  Claim C1 as it is stated fails on a line with a NUL byte: of the line \<^verbatim>\<open>a\0b\n\<close>
  only \<^verbatim>\<open>a\<close> is transmitted, since the length of the message is taken with
  \<^verbatim>\<open>strlen\<close>, while the line with its newline stripped is \<^verbatim>\<open>a\0b\<close>.
\<close>

theorem line_with_NUL_is_cut:
  "map_option (transmitted \<circ> trace) (input_half POSIX quiet (reading [CHR ''a'', NUL, CHR ''b'', NL]))
     = Some [''a'']
   \<and> ''a'' \<noteq> trimmed [CHR ''a'', NUL, CHR ''b'', NL]"
proof -
  have h: "thread_reading (reading [CHR ''a'', NUL, CHR ''b'', NL])" "input_done quiet"
    "length (InputBuffer (reading [CHR ''a'', NUL, CHR ''b'', NL])) = 300"
    "read_line 299 (stdin (reading [CHR ''a'', NUL, CHR ''b'', NL])) = ([CHR ''a'', NUL, CHR ''b'', NL], [])"
    "strip_trailing NL (c_prefix [CHR ''a'', NUL, CHR ''b'', NL]) \<noteq> []"
    by (simp_all add: reading_def initial_def quiet_def read_line_Cons chars
        strip_trailing_def c_prefix_def)
  have "trimmed (c_prefix [CHR ''a'', NUL, CHR ''b'', NL]) = ''a''"
    by (simp add: trimmed_def strip_trailing_def c_prefix_def chars)
  then have
    "map_option (transmitted \<circ> trace) (input_half POSIX quiet (reading [CHR ''a'', NUL, CHR ''b'', NL]))
       = Some [''a'']"
    unfolding input_half_eq [OF h]
    by (simp add: reading_def initial_def quiet_def SOCKET_ERROR_def)
  moreover have "''a'' \<noteq> trimmed [CHR ''a'', NUL, CHR ''b'', NL]"
    by (simp add: trimmed_def strip_trailing_def chars)
  ultimately show ?thesis by simp
qed

section \<open>The poll and the receive\<close>

lemma poll_select_error:
  assumes "select_ret t = - 1"
  shows "poll p t s = Some (set_exit (emit (Select # report_error p t) s))"
  using assms by (simp add: poll_def emit_def Let_def)

lemma poll_timeout:
  assumes "select_ret t \<noteq> - 1" and "\<not> select_ret t > 0"
  shows "poll p t s = Some (emit [Select] s)"
  using assms by (simp add: poll_def Let_def)

lemma poll_recv_error:
  assumes "select_ret t > 0" and "recv_res t = RecvError"
  shows "poll p t s = Some (set_exit (emit ([Select, Recv] @ report_error p t) s))"
  using assms by (simp add: poll_def emit_def Let_def)

lemma poll_recv_closed:
  assumes "select_ret t > 0" and "recv_res t = RecvData []"
  shows "poll p t s = Some (set_exit (emit [Select, Recv, Print OtherPartyQuit] s))"
  using assms by (simp add: poll_def emit_def Let_def)

lemma received_clean:
  assumes "ReceiveBuffer s = d @ NUL # replicate (299 - length d) NUL"
    and "NUL \<notin> set d" and "length d < 300"
  shows "received s = Some (emit [Print (TheySaid d)] s\<lparr>ReceiveBuffer := replicate 300 NUL\<rparr>)"
proof -
  have c: "cstring (d @ NUL # replicate (299 - length d) NUL) = Some d"
    using assms(2) by (rule cstring_append_NUL)
  have n: "strlen (d @ NUL # replicate (299 - length d) NUL) = Some (length d)"
    using assms(2) by (rule strlen_append_NUL)
  have "replicate (length d) NUL @ NUL # replicate (299 - length d) NUL = replicate 300 NUL"
    using assms(3) by (simp add: replicate_append_same flip: replicate_add replicate_Suc)
  then show ?thesis
    using assms(1,3) by (simp add: received_def emit_def c n memset_def)
qed

lemma poll_recv_data:
  assumes "select_ret t > 0" and "recv_res t = RecvData d" and "d \<noteq> []" and "length d < 300"
    and "NUL \<notin> set d" and "ReceiveBuffer s = replicate 300 NUL"
  shows "poll p t s =
     Some (emit [Select, Recv, Print (TheySaid d)] s\<lparr>ReceiveBuffer := replicate 300 NUL\<rparr>)"
proof -
  have b: "replicate (300 - length d) NUL = NUL # replicate (299 - length d) NUL"
    using assms(4) by (cases "300 - length d") (auto simp: Suc_diff_le)
  define s1 where "s1 = emit [Recv] (emit [Select] s
     \<lparr>ReceiveBuffer := d @ drop (length d) (ReceiveBuffer (emit [Select] s))\<rparr>)"
  have "ReceiveBuffer s1 = d @ NUL # replicate (299 - length d) NUL"
    using assms(6) b by (simp add: s1_def emit_def)
  then have "received s1 =
      Some (emit [Print (TheySaid d)] s1\<lparr>ReceiveBuffer := replicate 300 NUL\<rparr>)"
    using assms(5,4) by (rule received_clean)
  moreover have "poll p t s = received s1"
    using assms(1-4) by (simp add: poll_def Let_def s1_def)
  ultimately show ?thesis
    by (simp add: s1_def emit_def)
qed

lemma report_error_cases:
  "report_error POSIX t = []"
  "report_error WIN32 t =
     [Print (if last_error t = WSAECONNRESET then OtherPartyDisconnected
             else SocketErrorCode (last_error t))]"
  by (simp_all add: report_error_def Let_def)


text \<open>
  A receive that fills all 300 bytes leaves no NUL in \<^verbatim>\<open>ReceiveBuffer\<close>, and
  \<^verbatim>\<open>printf\<close> reads on behind the array.
\<close>

lemma poll_recv_unterminated:
  assumes "select_ret t > 0" and "recv_res t = RecvData d" and "300 \<le> length d"
    and "NUL \<notin> set (take 300 d)" and "length (ReceiveBuffer s) = 300"
  shows "poll p t s = None"
proof -
  have "take 300 d \<noteq> []" using assms(3) by auto
  moreover have "cstring (take 300 d) = None"
    using assms(4) by (simp add: cstring_def strlen_None)
  ultimately show ?thesis
    using assms(1,2,3,5) by (simp add: poll_def received_def emit_def Let_def min_def)
qed

text \<open>
  Claim C3, as the code has it. While the session is running and \<^verbatim>\<open>select\<close> reports
  data: a receive error sets \<^verbatim>\<open>bPerformExit\<close>, with an error report on a Windows build
  (\<^verbatim>\<open>Other party disconnected!\<close> or \<^verbatim>\<open>Socket Error! Code: n\<close>) and with no output at
  all on a POSIX build; a receive of zero bytes sets \<^verbatim>\<open>bPerformExit\<close> and prints
  \<^verbatim>\<open>Other party quit!\<close> and nothing else; a receive of fewer than 300 bytes, at least
  one and none of them NUL, into a cleared \<^verbatim>\<open>ReceiveBuffer\<close> prints exactly these
  bytes after \<^verbatim>\<open>They said: \<close>, leaves \<^verbatim>\<open>ReceiveBuffer\<close> all zero and the session
  running.
\<close>

theorem receive_outcomes:
  assumes "select_ret t > 0" and "\<not> bPerformExit s"
  shows "(recv_res t = RecvError \<longrightarrow>
           (\<exists>s'. poll p t s = Some s' \<and> bPerformExit s'
              \<and> trace s' = trace s @ [Select, Recv]
                   @ (case p of
                        WIN32 \<Rightarrow> [Print (if last_error t = WSAECONNRESET
                                          then OtherPartyDisconnected
                                          else SocketErrorCode (last_error t))]
                      | POSIX \<Rightarrow> [])
                   @ [SetExit]))
       \<and> (recv_res t = RecvData [] \<longrightarrow>
           (\<exists>s'. poll p t s = Some s' \<and> bPerformExit s'
              \<and> trace s' = trace s @ [Select, Recv, Print OtherPartyQuit, SetExit]))
       \<and> (\<forall>d. recv_res t = RecvData d \<and> d \<noteq> [] \<and> length d < 300 \<and> NUL \<notin> set d
               \<and> ReceiveBuffer s = replicate 300 NUL \<longrightarrow>
           (\<exists>s'. poll p t s = Some s' \<and> \<not> bPerformExit s'
              \<and> trace s' = trace s @ [Select, Recv, Print (TheySaid d)]
              \<and> ReceiveBuffer s' = replicate 300 NUL))"
proof (intro conjI impI allI)
  assume "recv_res t = RecvError"
  with assms(1) have "poll p t s = Some (set_exit (emit ([Select, Recv] @ report_error p t) s))"
    by (rule poll_recv_error)
  then show "\<exists>s'. poll p t s = Some s' \<and> bPerformExit s'
              \<and> trace s' = trace s @ [Select, Recv]
                   @ (case p of
                        WIN32 \<Rightarrow> [Print (if last_error t = WSAECONNRESET
                                          then OtherPartyDisconnected
                                          else SocketErrorCode (last_error t))]
                      | POSIX \<Rightarrow> [])
                   @ [SetExit]"
    by (cases p) (simp_all add: set_exit_def emit_def report_error_cases)
next
  assume "recv_res t = RecvData []"
  with assms(1) have "poll p t s = Some (set_exit (emit [Select, Recv, Print OtherPartyQuit] s))"
    by (rule poll_recv_closed)
  then show "\<exists>s'. poll p t s = Some s' \<and> bPerformExit s'
              \<and> trace s' = trace s @ [Select, Recv, Print OtherPartyQuit, SetExit]"
    by (simp add: set_exit_def emit_def)
next
  fix d
  assume "recv_res t = RecvData d \<and> d \<noteq> [] \<and> length d < 300 \<and> NUL \<notin> set d
               \<and> ReceiveBuffer s = replicate 300 NUL"
  with assms(1) have "poll p t s =
     Some (emit [Select, Recv, Print (TheySaid d)] s\<lparr>ReceiveBuffer := replicate 300 NUL\<rparr>)"
    by (intro poll_recv_data) auto
  then show "\<exists>s'. poll p t s = Some s' \<and> \<not> bPerformExit s'
              \<and> trace s' = trace s @ [Select, Recv, Print (TheySaid d)]
              \<and> ReceiveBuffer s' = replicate 300 NUL"
    using assms(2) by (simp add: emit_def)
qed

text \<open>
  A reset by the peer on a Windows build, a close by the peer, and a message \<^verbatim>\<open>hi\<close>.
\<close>

theorem receive_outcomes_witness:
  "(\<exists>s'. poll WIN32 (quiet\<lparr>select_ret := 1, recv_res := RecvError, last_error := 10054\<rparr>)
            (initial []) = Some s'
      \<and> bPerformExit s' \<and> trace s' = [Select, Recv, Print OtherPartyDisconnected, SetExit])
   \<and> (\<exists>s'. poll POSIX (quiet\<lparr>select_ret := 1\<rparr>) (initial []) = Some s'
      \<and> bPerformExit s' \<and> trace s' = [Select, Recv, Print OtherPartyQuit, SetExit])
   \<and> (\<exists>s'. poll POSIX (quiet\<lparr>select_ret := 1, recv_res := RecvData ''hi''\<rparr>) (initial [])
            = Some s'
      \<and> \<not> bPerformExit s' \<and> trace s' = [Select, Recv, Print (TheySaid ''hi'')]
      \<and> ReceiveBuffer s' = replicate 300 NUL)"
proof -
  have a: "0 < select_ret (quiet\<lparr>select_ret := 1, recv_res := RecvError, last_error := 10054\<rparr>)"
    "0 < select_ret (quiet\<lparr>select_ret := 1\<rparr>)"
    "0 < select_ret (quiet\<lparr>select_ret := 1, recv_res := RecvData ''hi''\<rparr>)"
    and b: "\<not> bPerformExit (initial [])"
    by (simp_all add: quiet_def initial_def)
  show ?thesis
    using receive_outcomes [OF a(1) b, of WIN32] receive_outcomes [OF a(2) b, of POSIX]
      receive_outcomes [OF a(3) b, of POSIX]
    by (simp add: quiet_def initial_def WSAECONNRESET_def NUL_def)
qed

text \<open>
  Claim C3 as it is stated fails on a POSIX build: after a receive error the loop ends
  and nothing is printed, since the report stands inside \<^verbatim>\<open>#ifdef _WIN32\<close>.
\<close>

theorem receive_error_not_reported_on_posix:
  "map_option trace
     (poll POSIX (quiet\<lparr>select_ret := 1, recv_res := RecvError, last_error := 104\<rparr>) (initial []))
   = Some [Select, Recv, SetExit]"
  by (simp add: poll_recv_error quiet_def report_error_cases set_exit_def emit_def initial_def)


lemma Chat_body_halves: "Chat_body p t s = input_half p t s \<bind> poll p t"
  by (simp add: Chat_body_def input_half_def)


section \<open>The events of one iteration and of a whole chat\<close>

lemma WaitForUserInput_frame:
  assumes "WaitForUserInput s = Some s'"
  shows "trace s' = trace s \<and> bPerformExit s' = bPerformExit s \<and> bHasMessageWaiting s'"
  using assms by (auto simp: WaitForUserInput_def split: prod.splits bind_splits)

lemma input_thread_frame:
  assumes "input_thread t s = Some s'"
  shows "trace s' = trace s \<and> bPerformExit s' = bPerformExit s"
  using assms WaitForUserInput_frame [of s s']
  by (auto simp: input_thread_def split: if_splits)

lemma input_ready_events:
  assumes "input_ready p t s = Some s'"
  shows "(trace s' = trace s \<and> bPerformExit s' = bPerformExit s)
    \<or> (\<exists>msg. trace s' = trace s @ [ThreadJoin, Send msg]
           @ (if send_ret t = SOCKET_ERROR then report_error p t @ [SetExit] else [])
           @ ThreadCreate # (if create_ret t \<noteq> 0 then [Print ErrorCreatingThread] else [])
         \<and> bPerformExit s' = (bPerformExit s \<or> send_ret t = SOCKET_ERROR))"
  using assms
  by (auto simp: input_ready_def emit_def set_exit_def create_thread_def memset_def Let_def
      split: bind_splits if_splits)

lemma received_events:
  assumes "received s = Some s'"
  shows "\<exists>m. trace s' = trace s @ [Print (TheySaid m)] \<and> bPerformExit s' = bPerformExit s"
  using assms by (auto simp: received_def emit_def split: bind_splits)

lemma poll_events:
  assumes "poll p t s = Some s'"
  shows "\<exists>z. trace s' = trace s @ Select # z
     \<and> bPerformExit s' = (bPerformExit s \<or> SetExit \<in> set z)
     \<and> (z = report_error p t @ [SetExit] \<or> z = []
        \<or> z = Recv # report_error p t @ [SetExit]
        \<or> z = [Recv, Print OtherPartyQuit, SetExit]
        \<or> (\<exists>m. z = [Recv, Print (TheySaid m)]))"
proof (cases "select_ret t = - 1")
  case True
  then show ?thesis
    using assms by (auto simp: poll_select_error set_exit_def emit_def)
next
  case n1: False
  show ?thesis
  proof (cases "select_ret t > 0")
    case False
    then show ?thesis
      using assms n1 by (auto simp: poll_timeout emit_def)
  next
    case pos: True
    show ?thesis
    proof (cases "recv_res t")
      case RecvError
      then show ?thesis
        using assms pos by (auto simp: poll_recv_error set_exit_def emit_def)
    next
      case (RecvData d)
      show ?thesis
      proof (cases "take 300 d = []")
        case True
        then show ?thesis
          using assms pos RecvData n1
          by (auto simp: poll_def Let_def set_exit_def emit_def)
      next
        case False
        define s1 where "s1 = emit [Recv] (emit [Select] s
          \<lparr>ReceiveBuffer := take 300 d @ drop (length (take 300 d)) (ReceiveBuffer (emit [Select] s))\<rparr>)"
        have "poll p t s = received s1"
          using pos RecvData n1 False by (simp add: poll_def Let_def s1_def)
        with assms obtain m where "trace s' = trace s1 @ [Print (TheySaid m)]"
          and "bPerformExit s' = bPerformExit s1"
          using received_events [of s1 s'] by auto
        then show ?thesis
          by (auto simp: s1_def emit_def)
      qed
    qed
  qed
qed

lemma after_exit_Nil: "after_exit [] = []"
  by (simp add: after_exit_def)

lemma after_exit_none: "SetExit \<notin> set evs \<Longrightarrow> after_exit evs = []"
  by (induction evs) (auto simp: after_exit_def)

lemma after_exit_append:
  "SetExit \<notin> set xs \<Longrightarrow> after_exit (xs @ ys) = after_exit ys"
  by (simp add: after_exit_def dropWhile_append)

lemma after_exit_Cons:
  "after_exit (e # evs) = (if e = SetExit then evs else after_exit evs)"
  by (simp add: after_exit_def)

lemma report_error_shape: "report_error p t = [] \<or> (\<exists>m. report_error p t = [Print m])"
  by (cases p) (simp_all add: report_error_cases)

lemma Chat_body_events:
  assumes "Chat_body p t s = Some s'" and "\<not> bPerformExit s"
  shows "\<exists>evs. trace s' = trace s @ evs \<and> (bPerformExit s' \<longleftrightarrow> SetExit \<in> set evs)
     \<and> socket_ops (after_exit evs) \<in> {[], [Select], [Select, Recv]}"
proof -
  from assms(1) obtain s1 s2 where
    1: "input_thread t s = Some s1" and 2: "input_ready p t s1 = Some s2"
    and 3: "poll p t s2 = Some s'"
    by (auto simp: Chat_body_def split: bind_splits)
  from 1 have f1: "trace s1 = trace s" "bPerformExit s1 = bPerformExit s"
    using input_thread_frame by blast+
  from 3 obtain z where
    z: "trace s' = trace s2 @ Select # z" "bPerformExit s' = (bPerformExit s2 \<or> SetExit \<in> set z)"
    and zs: "z = report_error p t @ [SetExit] \<or> z = []
        \<or> z = Recv # report_error p t @ [SetExit]
        \<or> z = [Recv, Print OtherPartyQuit, SetExit]
        \<or> (\<exists>m. z = [Recv, Print (TheySaid m)])"
    using poll_events by blast
  have zok: "socket_ops (after_exit (Select # z)) = []"
    "socket_ops (Select # z) \<in> {[Select], [Select, Recv]}"
    using zs report_error_shape [of p t]
    by (auto simp: after_exit_Cons after_exit_Nil socket_ops_def)
  from input_ready_events [OF 2] show ?thesis
  proof
    assume "trace s2 = trace s1 \<and> bPerformExit s2 = bPerformExit s1"
    then show ?thesis
      using f1 z zok assms(2) by (intro exI [of _ "Select # z"]) auto
  next
    assume "\<exists>msg. trace s2 = trace s1 @ [ThreadJoin, Send msg]
           @ (if send_ret t = SOCKET_ERROR then report_error p t @ [SetExit] else [])
           @ ThreadCreate # (if create_ret t \<noteq> 0 then [Print ErrorCreatingThread] else [])
         \<and> bPerformExit s2 = (bPerformExit s1 \<or> send_ret t = SOCKET_ERROR)"
    then obtain msg where
      t2: "trace s2 = trace s1 @ [ThreadJoin, Send msg]
           @ (if send_ret t = SOCKET_ERROR then report_error p t @ [SetExit] else [])
           @ ThreadCreate # (if create_ret t \<noteq> 0 then [Print ErrorCreatingThread] else [])"
      and e2: "bPerformExit s2 = (bPerformExit s1 \<or> send_ret t = SOCKET_ERROR)"
      by blast
    define c where "c = ThreadCreate # (if create_ret t \<noteq> 0 then [Print ErrorCreatingThread] else [])"
    have c: "SetExit \<notin> set c" "socket_ops c = []"
      by (simp_all add: c_def socket_ops_def)
    show ?thesis
    proof (cases "send_ret t = SOCKET_ERROR")
      case True
      have "after_exit ([ThreadJoin, Send msg] @ report_error p t @ [SetExit] @ c @ Select # z)
          = c @ Select # z"
        using report_error_shape [of p t] by (auto simp: after_exit_Cons)
      then have "socket_ops (after_exit ([ThreadJoin, Send msg] @ report_error p t @ [SetExit] @ c @ Select # z))
          \<in> {[], [Select], [Select, Recv]}"
        using zok(2) c(2) by (simp add: socket_ops_def)
      then show ?thesis
        using True t2 e2 z f1
        by (intro exI [of _ "[ThreadJoin, Send msg] @ report_error p t @ [SetExit] @ c @ Select # z"])
          (simp add: c_def)
    next
      case False
      have "after_exit ([ThreadJoin, Send msg] @ c @ Select # z) = after_exit (Select # z)"
        using c(1) by (simp add: after_exit_Cons after_exit_append)
      then have "socket_ops (after_exit ([ThreadJoin, Send msg] @ c @ Select # z)) = []"
        using zok(1) by simp
      then show ?thesis
        using False t2 e2 z f1 assms(2) c(1)
        by (intro exI [of _ "[ThreadJoin, Send msg] @ c @ Select # z"])
          (auto simp: c_def)
    qed
  qed
qed

lemma transmitted_socket_ops: "transmitted (socket_ops evs) = transmitted evs"
  unfolding socket_ops_def by (induction evs rule: transmitted.induct) auto

lemma Chat_loop_after_exit:
  assumes "Chat_loop p ts s = Some s'" and "\<not> bPerformExit s" and "SetExit \<notin> set (trace s)"
  shows "socket_ops (after_exit (trace s')) \<in> {[], [Select], [Select, Recv]}"
  using assms
proof (induction ts arbitrary: s)
  case Nil
  then show ?case by (simp add: after_exit_none socket_ops_def)
next
  case (Cons t ts)
  from Cons.prems(1) obtain s1 where b: "Chat_body p t s = Some s1"
    and r: "(if bPerformExit s1 then Some s1 else Chat_loop p ts s1) = Some s'"
    by (auto split: option.splits)
  from Chat_body_events [OF b Cons.prems(2)] obtain evs where
    e: "trace s1 = trace s @ evs" "bPerformExit s1 \<longleftrightarrow> SetExit \<in> set evs"
    "socket_ops (after_exit evs) \<in> {[], [Select], [Select, Recv]}"
    by blast
  show ?case
  proof (cases "bPerformExit s1")
    case True
    with r have "s' = s1" by simp
    then show ?thesis
      using e Cons.prems(3) by (simp add: after_exit_append)
  next
    case False
    with r have "Chat_loop p ts s1 = Some s'" by simp
    moreover have "SetExit \<notin> set (trace s1)"
      using e(1,2) False Cons.prems(3) by simp
    ultimately show ?thesis
      using False Cons.IH by blast
  qed
qed

lemma Chat_loop_exited:
  assumes "Chat_loop p ts s = Some s'" and "bPerformExit s'" and "\<not> bPerformExit s"
  shows "Chat_loop p (ts @ ts2) s = Some s'"
  using assms
proof (induction ts arbitrary: s)
  case Nil
  then show ?case by simp
next
  case (Cons t ts)
  then show ?case
    by (cases "Chat_body p t s") (auto split: if_splits)
qed

lemma Chat_start:
  "Chat p ret ts s =
     Chat_loop p ts (create_thread ret (emit [Print Connected]
       (s\<lparr>bPerformExit := False, bHasMessageWaiting := False\<rparr>)))"
  by (simp add: Chat_def Let_def)

lemma create_thread_frame:
  "trace (create_thread ret s) =
     trace s @ ThreadCreate # (if ret \<noteq> 0 then [Print ErrorCreatingThread] else [])"
  "bPerformExit (create_thread ret s) = bPerformExit s"
  by (simp_all add: create_thread_def emit_def)

lemma Chat_after_exit:
  assumes "Chat p ret ts s = Some s'" and "SetExit \<notin> set (trace s)"
  shows "socket_ops (after_exit (trace s')) \<in> {[], [Select], [Select, Recv]}"
proof -
  define s0 where "s0 = create_thread ret (emit [Print Connected]
       (s\<lparr>bPerformExit := False, bHasMessageWaiting := False\<rparr>))"
  have "Chat_loop p ts s0 = Some s'"
    using assms(1) by (simp add: Chat_start s0_def)
  moreover have "\<not> bPerformExit s0" "SetExit \<notin> set (trace s0)"
    using assms(2) by (simp_all add: s0_def create_thread_frame emit_def)
  ultimately show ?thesis by (rule Chat_loop_after_exit)
qed

lemma Chat_exited:
  assumes "Chat p ret ts s = Some s'" and "bPerformExit s'"
  shows "Chat p ret (ts @ ts2) s = Some s'"
  using assms unfolding Chat_start
  by (rule Chat_loop_exited) (simp add: create_thread_frame emit_def)

lemma send_fails_half:
  "input_half POSIX send_fails (create_thread 0 (emit [Print Connected]
       ((initial (''hi'' @ [NL]))\<lparr>bPerformExit := False, bHasMessageWaiting := False\<rparr>))) =
   Some ((initial [])\<lparr>bPerformExit := True, thread_reading := True,
           trace := [Print Connected, ThreadCreate, ThreadJoin, Send ''hi'', SetExit, ThreadCreate]\<rparr>)"
  by (subst input_half_eq [where l = "''hi'' @ [NL]" and rest = "[]"])
    (simp_all add: create_thread_def emit_def initial_def send_fails_def quiet_def
      read_line_Cons chars strip_trailing_def c_prefix_def trimmed_def SOCKET_ERROR_def
      report_error_cases)

lemma send_fails_run:
  "Chat POSIX 0 [send_fails] (initial (''hi'' @ [NL])) =
   Some ((initial [])\<lparr>bPerformExit := True, thread_reading := True,
           trace := [Print Connected, ThreadCreate, ThreadJoin, Send ''hi'', SetExit, ThreadCreate,
                     Select, Recv, Print (TheySaid ''yo'')]\<rparr>)"
proof -
  have "poll POSIX send_fails ((initial [])\<lparr>bPerformExit := True, thread_reading := True,
           trace := [Print Connected, ThreadCreate, ThreadJoin, Send ''hi'', SetExit, ThreadCreate]\<rparr>)
    = Some ((initial [])\<lparr>bPerformExit := True, thread_reading := True,
           trace := [Print Connected, ThreadCreate, ThreadJoin, Send ''hi'', SetExit, ThreadCreate,
                     Select, Recv, Print (TheySaid ''yo'')]\<rparr>)"
    by (subst poll_recv_data [where d = "''yo''"])
      (simp_all add: send_fails_def quiet_def initial_def emit_def chars)
  then show ?thesis
    unfolding Chat_start Chat_loop.simps Chat_body_halves send_fails_half by simp
qed


text \<open>
  Claim C4, as the code has it. \<^verbatim>\<open>bPerformExit\<close> is tested only at the end of the loop
  body. Once it has been set no further \<^verbatim>\<open>send\<close> is attempted and no further iteration
  is run, whatever the outside world would answer; the only calls on the socket that can
  still follow are the \<^verbatim>\<open>select\<close> of the running iteration and, when it reports data,
  one \<^verbatim>\<open>recv\<close>; they follow when it was a failed \<^verbatim>\<open>send\<close> that set the flag.
\<close>

theorem after_exit_at_most_one_poll_and_receive:
  assumes "Chat p ret ts s = Some s'" and "SetExit \<notin> set (trace s)"
  shows "socket_ops (after_exit (trace s')) \<in> {[], [Select], [Select, Recv]}
       \<and> transmitted (after_exit (trace s')) = []
       \<and> (bPerformExit s' \<longrightarrow> (\<forall>ts2. Chat p ret (ts @ ts2) s = Some s'))"
proof -
  have a: "socket_ops (after_exit (trace s')) \<in> {[], [Select], [Select, Recv]}"
    using assms by (rule Chat_after_exit)
  have "transmitted (socket_ops (after_exit (trace s'))) = []"
    using a by auto
  then have "transmitted (after_exit (trace s')) = []"
    by (simp add: transmitted_socket_ops)
  with a show ?thesis
    using Chat_exited [OF assms(1)] by blast
qed

text \<open>
  A run in which \<^verbatim>\<open>send\<close> fails: the poll and the receive of the same iteration are
  the last calls on the socket, and a longer list of answers changes nothing.
\<close>

theorem after_exit_at_most_one_poll_and_receive_witness:
  "SetExit \<notin> set (trace (initial (''hi'' @ [NL])))
   \<and> (\<exists>s'. Chat POSIX 0 [send_fails] (initial (''hi'' @ [NL])) = Some s'
        \<and> bPerformExit s'
        \<and> socket_ops (after_exit (trace s')) = [Select, Recv]
        \<and> transmitted (after_exit (trace s')) = []
        \<and> Chat POSIX 0 ([send_fails] @ [send_fails, quiet]) (initial (''hi'' @ [NL])) = Some s')"
proof -
  have h: "SetExit \<notin> set (trace (initial (''hi'' @ [NL])))"
    by (simp add: initial_def)
  have "socket_ops (after_exit [Print Connected, ThreadCreate, ThreadJoin, Send ''hi'', SetExit,
          ThreadCreate, Select, Recv, Print (TheySaid ''yo'')]) = [Select, Recv]"
    by (simp add: after_exit_Cons socket_ops_def)
  then show ?thesis
    using after_exit_at_most_one_poll_and_receive [OF send_fails_run h] h
    by (simp add: send_fails_run)
qed

text \<open>
  Claim C4 as it is stated fails: after the failed \<^verbatim>\<open>send\<close> has set
  \<^verbatim>\<open>bPerformExit\<close>, the same iteration still starts a thread, polls the socket and
  receives and prints the message of the peer.
\<close>

theorem send_failure_followed_by_poll_and_receive:
  "map_option trace (Chat POSIX 0 [send_fails] (initial (''hi'' @ [NL])))
     = Some [Print Connected, ThreadCreate, ThreadJoin, Send ''hi'', SetExit, ThreadCreate,
             Select, Recv, Print (TheySaid ''yo'')]
   \<and> map_option (socket_ops \<circ> after_exit \<circ> trace)
        (Chat POSIX 0 [send_fails] (initial (''hi'' @ [NL]))) = Some [Select, Recv]"
  unfolding send_fails_run by (simp add: after_exit_Cons socket_ops_def)

text \<open>
  Claim C5, as the code has it: in the input-ready branch the bytes of \<^verbatim>\<open>InputBuffer\<close>
  up to its terminator are handed to \<^verbatim>\<open>send\<close> once in every case, also when there is
  none of them; the call is not guarded by a test of the length.
\<close>

theorem input_line_always_sent:
  assumes "bHasMessageWaiting s" and "cstring (InputBuffer s) = Some msg"
    and "length (InputBuffer s) = 300"
  shows "\<exists>s'. input_ready p t s = Some s'
           \<and> transmitted (trace s') = transmitted (trace s) @ [msg]"
  using input_ready_eq [OF assms, of p t]
  by (simp add: transmitted_append transmitted_report_error)

theorem input_line_always_sent_witness:
  "bHasMessageWaiting flagged \<and> cstring (InputBuffer flagged) = Some []
   \<and> length (InputBuffer flagged) = 300
   \<and> (\<exists>s'. input_ready POSIX quiet flagged = Some s' \<and> transmitted (trace s') = [[]])"
proof -
  have h: "bHasMessageWaiting flagged" "cstring (InputBuffer flagged) = Some []"
    "length (InputBuffer flagged) = 300"
    by (simp_all add: flagged_def initial_def cstring_def strlen_replicate_NUL)
  have "trace flagged = []"
    by (simp add: flagged_def initial_def)
  then show ?thesis
    using input_line_always_sent [OF h, of POSIX quiet] h by simp
qed

text \<open>
  Claim C5 as it is stated fails: the line \<^verbatim>\<open>\r\n\<close> leaves an empty \<^verbatim>\<open>InputBuffer\<close>,
  and the loop calls \<^verbatim>\<open>send\<close> with no bytes.
\<close>

theorem empty_line_is_sent:
  "map_option trace (input_half POSIX quiet (reading [CR, NL]))
     = Some [ThreadJoin, Send [], ThreadCreate]"
  by (subst input_half_eq [where l = "[CR, NL]" and rest = "[]"])
    (simp_all add: reading_def initial_def quiet_def read_line_Cons chars strip_trailing_def
      c_prefix_def trimmed_def SOCKET_ERROR_def)

text \<open>
  Claim C6, as the code has it: after the loop has consumed an input line it calls
  \<^verbatim>\<open>pthread_create\<close> for a new input thread once in every case, whether or not the
  \<^verbatim>\<open>send\<close> before it has failed and set \<^verbatim>\<open>bPerformExit\<close>; the thread runs when
  \<^verbatim>\<open>pthread_create\<close> returns 0.
\<close>

theorem new_input_thread_always_created:
  assumes "bHasMessageWaiting s" and "cstring (InputBuffer s) = Some msg"
    and "length (InputBuffer s) = 300"
  shows "\<exists>s'. input_ready p t s = Some s'
           \<and> count_list (trace s') ThreadCreate = count_list (trace s) ThreadCreate + 1
           \<and> bPerformExit s' = (bPerformExit s \<or> send_ret t = SOCKET_ERROR)
           \<and> thread_reading s' = (thread_reading s \<or> create_ret t = 0)"
proof -
  have "count_list (report_error p t) ThreadCreate = 0"
    using report_error_shape [of p t] by auto
  then show ?thesis
    using input_ready_eq [OF assms, of p t] by simp
qed

theorem new_input_thread_always_created_witness:
  "bHasMessageWaiting flagged \<and> cstring (InputBuffer flagged) = Some []
   \<and> length (InputBuffer flagged) = 300
   \<and> (\<exists>s'. input_ready POSIX send_fails flagged = Some s'
        \<and> count_list (trace s') ThreadCreate = 1 \<and> bPerformExit s' \<and> thread_reading s')"
proof -
  have h: "bHasMessageWaiting flagged" "cstring (InputBuffer flagged) = Some []"
    "length (InputBuffer flagged) = 300"
    by (simp_all add: flagged_def initial_def cstring_def strlen_replicate_NUL)
  have "trace flagged = []" "send_ret send_fails = SOCKET_ERROR" "create_ret send_fails = 0"
    by (simp_all add: flagged_def initial_def send_fails_def quiet_def SOCKET_ERROR_def)
  then show ?thesis
    using new_input_thread_always_created [OF h, of POSIX send_fails] h by simp
qed

text \<open>
  Claim C6 as it is stated fails: the failed \<^verbatim>\<open>send\<close> sets \<^verbatim>\<open>bPerformExit\<close>, and the
  loop creates the next input thread all the same.
\<close>

theorem thread_created_after_exit_set:
  "map_option trace (input_half POSIX send_fails (reading (''hi'' @ [NL])))
     = Some [ThreadJoin, Send ''hi'', SetExit, ThreadCreate]
   \<and> map_option bPerformExit (input_half POSIX send_fails (reading (''hi'' @ [NL]))) = Some True
   \<and> map_option thread_reading (input_half POSIX send_fails (reading (''hi'' @ [NL]))) = Some True"
  by (subst input_half_eq [where l = "''hi'' @ [NL]" and rest = "[]"],
      simp_all add: reading_def initial_def send_fails_def quiet_def read_line_Cons chars
        strip_trailing_def c_prefix_def trimmed_def SOCKET_ERROR_def report_error_cases)+

section \<open>The prompts on sample input\<close>

lemmas clib = isspace_def isdigit_def scan_int_def atoi_def sscanf_d_def sscanf_s_def
  INT_MAX_def INT_MIN_def Let_def

lemmas prompts = asking_def initial_def answer_def emit_def fgets_def read_line_Cons read_line_Nil
  cstring_def chars

text \<open>Whatever \<^verbatim>\<open>GetValidPortNo\<close> returns lies between 1 and 65534.\<close>

lemma GetValidPortNo_range:
  "GetValidPortNo k n s = Some (v, s') \<Longrightarrow> 0 < v \<and> v < 65535"
proof (induction k arbitrary: n s)
  case 0
  then show ?case by simp
next
  case (Suc k)
  then show ?case
    by (auto simp: Let_def split: bind_splits prod.splits if_splits)
qed

text \<open>
  Claim C7 says that every input that parses as an integer from 1 to 65535 is accepted,
  and the prompt of the program itself asks for a port number \<^verbatim>\<open>(1-65535)\<close>. The code
  tests \<^verbatim>\<open>*PortNo < 65535\<close>: it answers the line \<^verbatim>\<open>65535\<close> with
  \<^verbatim>\<open>Invalid Input.  try again.\<close> and asks again.
\<close>

theorem port_65535_is_rejected:
  "answer (GetValidPortNo 2 0 (asking SERVER (''65535'' @ [NL] @ ''8080'' @ [NL])))
     = Some (8080, [Print AskPortServer, Print InvalidPort, Print AskPortServer])"
  by (simp add: numeral_2_eq_2 prompts clib)

text \<open>The other inputs that the claim names: 1, 65534 and 8080 are accepted, -5 and abc are not.\<close>

lemma port_examples:
  "answer (GetValidPortNo 1 0 (asking CLIENT (''1'' @ [NL]))) = Some (1, [Print AskPortClient])"
  "answer (GetValidPortNo 1 0 (asking CLIENT (''65534'' @ [NL])))
     = Some (65534, [Print AskPortClient])"
  "answer (GetValidPortNo 1 0 (asking CLIENT (''8080'' @ [NL])))
     = Some (8080, [Print AskPortClient])"
  "answer (GetValidPortNo 2 0 (asking CLIENT (''-5'' @ [NL] @ ''7'' @ [NL])))
     = Some (7, [Print AskPortClient, Print InvalidPort, Print AskPortClient])"
  "answer (GetValidPortNo 2 0 (asking CLIENT (''abc'' @ [NL] @ ''7'' @ [NL])))
     = Some (7, [Print AskPortClient, Print InvalidPort, Print AskPortClient])"
  by (simp_all add: numeral_2_eq_2 prompts clib)

text \<open>
  Claim C8 says that a string with an empty final octet, such as \<^verbatim>\<open>1.2.3.\<close>, is
  rejected. The code tests for an empty octet only when it meets a dot, and after the loop
  it tests \<^verbatim>\<open>atoi(LastIPOctet)\<close>, which is 0 for the empty string: it accepts
  \<^verbatim>\<open>1.2.3.\<close> at the first prompt.
\<close>

theorem address_with_empty_last_octet_is_accepted:
  "answer (GetValidIP 1 [] (asking CLIENT (''1.2.3.'' @ [NL]))) = Some (''1.2.3.'', [Print AskIP])"
  by (simp add: prompts clib validate_ip_def)

text \<open>The other strings that the claim names are treated as it says.\<close>

lemma address_examples:
  "validate_ip ''1.2.3'' = Some False"
  "validate_ip ''1.2.3.4.5'' = Some False"
  "validate_ip ''1.2.256.4'' = Some False"
  "validate_ip ''1..2.3'' = Some False"
  "validate_ip ''0.0.0.0'' = Some True"
  "validate_ip ''255.255.255.255'' = Some True"
  by (simp_all add: validate_ip_def clib)

section \<open>The end of a session\<close>


































































section \<open>The hand-over of the input buffer\<close>

lemma handoff_start: "handoff start"
  by (simp add: handoff_def start_def)

lemma handoff_loop_step:
  assumes "handoff c" and "loop_step r c = Some c'"
  shows "handoff c'"
  using assms
  by (cases "loop_at c"; cases "tasks c")
    (auto simp: handoff_def newest_def spawn_def joined_def split: if_splits)

lemma handoff_task_step:
  assumes "handoff c" and "task_step i c = Some c'"
  shows "handoff c'"
proof (cases "tasks c")
  case Nil
  with assms(2) show ?thesis by simp
next
  case (Cons t ts)
  show ?thesis
  proof (cases i)
    case 0
    with assms Cons show ?thesis
      by (cases "loop_at c"; cases t)
        (auto simp: handoff_def newest_def joined_def split: if_splits)
  next
    case (Suc j)
    with assms Cons have "j < length ts \<Longrightarrow> ts ! j = T_joined"
      by (auto simp: handoff_def joined_def list_all_length)
    with assms(2) Cons Suc show ?thesis
      by (auto split: if_splits)
  qed
qed

lemma handoff_step: "handoff c \<Longrightarrow> step a c = Some c' \<Longrightarrow> handoff c'"
  by (cases a) (auto intro: handoff_loop_step handoff_task_step simp del: loop_step.simps task_step.simps)

lemma handoff_run: "run as c = Some c' \<Longrightarrow> handoff c \<Longrightarrow> handoff c'"
proof (induction as arbitrary: c)
  case Nil
  then show ?case by simp
next
  case (Cons a as)
  then show ?case
    by (cases "step a c") (auto dest: handoff_step)
qed


lemma handoff_all_joined:
  assumes "handoff c" and "newest c = T_joined"
  shows "list_all joined (tasks c)"
  using assms by (cases "tasks c") (auto simp: handoff_def newest_def joined_def)

lemma handoff_flag_written:
  assumes "handoff c" and "flag c"
  shows "\<not> list_ex writing (tasks c)"
proof (cases "tasks c")
  case Nil
  then show ?thesis by simp
next
  case (Cons t ts)
  with assms have "list_all joined ts" and "\<not> writing t"
    by (cases "loop_at c"; auto simp: handoff_def newest_def writing_def)+
  then show ?thesis
    using Cons by (auto simp: list_ex_iff list_all_iff joined_def writing_def)
qed

lemma handoff_one_active:
  assumes "handoff c"
  shows "length (filter (\<lambda>t. \<not> joined t) (tasks c)) \<le> 1"
proof (cases "tasks c")
  case Nil
  then show ?thesis by simp
next
  case (Cons t ts)
  with assms have "list_all joined ts"
    by (simp add: handoff_def)
  then have "filter (\<lambda>t. \<not> joined t) ts = []"
    by (auto simp: list_all_iff filter_empty_conv)
  then show ?thesis
    using Cons by simp
qed

lemma filter_active_le:
  "length (filter active ts) \<le> length (filter (\<lambda>t. \<not> joined t) ts)"
  by (induction ts) (auto simp: active_def joined_def)

lemma flag_changes:
  assumes "handoff c" and "step a c = Some c'" and "flag c' \<noteq> flag c"
  shows "(\<exists>i. a = Task i \<and> \<not> flag c \<and> flag c' \<and> i < length (tasks c)
              \<and> tasks c ! i = T_set_flag)
       \<or> (\<exists>r. a = Loop r \<and> flag c \<and> \<not> flag c' \<and> loop_at c = L_reset_flag
              \<and> list_all joined (tasks c))"
proof (cases a)
  case (Task i)
  with assms(2,3) show ?thesis
    by (cases "tasks c ! i") (auto split: if_splits)
next
  case (Loop r)
  with assms(2,3) have l: "loop_at c = L_reset_flag" and f: "flag c" "\<not> flag c'"
    by (cases "loop_at c"; cases "tasks c"; auto split: if_splits)+
  with assms(1) have "newest c = T_joined"
    by (simp add: handoff_def)
  with assms(1) have "list_all joined (tasks c)"
    by (rule handoff_all_joined)
  with Loop l f show ?thesis by simp
qed

text \<open>
  Claim C10. In every interleaving of the steps of the loop and of the input threads:
  the loop reads or writes \<^verbatim>\<open>InputBuffer\<close> only when every thread created so far has
  been joined; it joins only a thread that has set the flag and is at its end, and it
  sends only while the flag it has seen is still true; while the flag
  is true no thread has a write of \<^verbatim>\<open>InputBuffer\<close> before it; at most one thread is not
  yet joined, so at most one runs; and the flag changes only from false to true by the
  step \<^verbatim>\<open>bHasMessageWaiting = true\<close> of a thread and from true to false by the step
  \<^verbatim>\<open>bHasMessageWaiting = false\<close> of the loop, which it takes when all threads have been
  joined.
\<close>

theorem input_buffer_handoff:
  assumes "run as start = Some c"
  shows "(uses_InputBuffer (loop_at c) \<longrightarrow> list_all joined (tasks c))
       \<and> (loop_at c = L_join \<longrightarrow> flag c \<and> (newest c = T_exit \<or> newest c = T_exited))
       \<and> (loop_at c = L_send \<longrightarrow> flag c)
       \<and> (flag c \<longrightarrow> \<not> list_ex writing (tasks c))
       \<and> length (filter (\<lambda>t. \<not> joined t) (tasks c)) \<le> 1
       \<and> length (filter active (tasks c)) \<le> 1
       \<and> (\<forall>a c'. step a c = Some c' \<and> flag c' \<noteq> flag c \<longrightarrow>
            (\<exists>i. a = Task i \<and> \<not> flag c \<and> flag c' \<and> i < length (tasks c)
                 \<and> tasks c ! i = T_set_flag)
          \<or> (\<exists>r. a = Loop r \<and> flag c \<and> \<not> flag c' \<and> loop_at c = L_reset_flag
                 \<and> list_all joined (tasks c)))"
proof -
  have h: "handoff c"
    using assms handoff_start by (rule handoff_run)
  have 1: "uses_InputBuffer (loop_at c) \<longrightarrow> list_all joined (tasks c)"
    using h handoff_all_joined [OF h] by (auto simp: uses_InputBuffer_def handoff_def)
  have 2: "loop_at c = L_send \<longrightarrow> flag c"
    "loop_at c = L_join \<longrightarrow> flag c \<and> (newest c = T_exit \<or> newest c = T_exited)"
    using h by (auto simp: handoff_def)
  have 3: "flag c \<longrightarrow> \<not> list_ex writing (tasks c)"
    using h handoff_flag_written by blast
  have 4: "length (filter (\<lambda>t. \<not> joined t) (tasks c)) \<le> 1"
    using h by (rule handoff_one_active)
  have 5: "length (filter active (tasks c)) \<le> 1"
    using 4 filter_active_le [of "tasks c"] by simp
  have 6: "\<forall>a c'. step a c = Some c' \<and> flag c' \<noteq> flag c \<longrightarrow>
            (\<exists>i. a = Task i \<and> \<not> flag c \<and> flag c' \<and> i < length (tasks c)
                 \<and> tasks c ! i = T_set_flag)
          \<or> (\<exists>r. a = Loop r \<and> flag c \<and> \<not> flag c' \<and> loop_at c = L_reset_flag
                 \<and> list_all joined (tasks c))"
    using flag_changes [OF h] by blast
  from 1 2 3 4 5 6 show ?thesis by blast
qed

text \<open>The interleaving \<^term>\<open>a_line_typed\<close> ends where the loop stands before \<^verbatim>\<open>send\<close>.\<close>

theorem input_buffer_handoff_witness:
  "run a_line_typed start = Some \<lparr>loop_at = L_send, tasks = [T_joined], flag = True, leave = False\<rparr>
   \<and> uses_InputBuffer L_send
   \<and> list_all joined (tasks \<lparr>loop_at = L_send, tasks = [T_joined], flag = True, leave = False\<rparr>)
   \<and> flag \<lparr>loop_at = L_send, tasks = [T_joined], flag = True, leave = False\<rparr>
   \<and> \<not> list_ex writing (tasks \<lparr>loop_at = L_send, tasks = [T_joined], flag = True, leave = False\<rparr>)"
proof -
  have r: "run a_line_typed start =
      Some \<lparr>loop_at = L_send, tasks = [T_joined], flag = True, leave = False\<rparr>"
    by (simp add: a_line_typed_def start_def spawn_def)
  show ?thesis
    using input_buffer_handoff [OF r] r by (simp add: uses_InputBuffer_def)
qed

end
